theory Spec2Isabelle
  imports Main "HOL-Library.AList"
begin

section \<open>Errors and log records\<close>

text \<open>
  Every \<^verbatim>\<open>throw\<close> of the modelled TypeScript is a value of \<open>error\<close>. The first two
  constructors are the two \<^verbatim>\<open>new Error(...)\<close> messages of the service itself; the others
  are what the environment raises (the file system, the child process, the readiness poll).
  \<open>FsError\<close> and \<open>SpawnFailed\<close> carry the \<^verbatim>\<open>code\<close> property of the Node error (ENOSPC, ...).
  The three throws inside the \<^verbatim>\<open>try\<close> block of \<^verbatim>\<open>allocatePort\<close> are kept apart as
  \<open>port_failure\<close>, because the \<^verbatim>\<open>catch\<close> of that method replaces each of them.
\<close>

datatype error =
    MaxConcurrentReached
  | NoAvailablePorts
  | FsError string
  | SpawnFailed string
  | ProcessExited int
  | StartupTimeout
  | ServerFailedToStart int

datatype port_failure =
    GetPortThrew
  | OutOfRange int
  | AllocationConflict int

datatype log_level = LogInfo | LogWarn | LogError

section \<open>PortManager (port-manager.ts)\<close>

text \<open>
  \<^verbatim>\<open>allocatedPorts\<close> is a \<^verbatim>\<open>Set<number>\<close>; \<^verbatim>\<open>startPort\<close> and \<^verbatim>\<open>endPort\<close> are read-only.
  The library call \<^verbatim>\<open>getPort\<close> (package get-port-please, which probes the operating
  system) is not part of the repository: its outcome is an argument of \<open>allocatePort\<close>,
  \<open>None\<close> when it throws and \<open>Some port\<close> when it resolves, with no assumption on the port
  it resolves to.
\<close>

record port_manager =
  startPort :: int
  endPort :: int
  allocatedPorts :: "int set"

definition allocatePort_try :: "int option \<Rightarrow> port_manager \<Rightarrow> port_failure + (int \<times> port_manager)" where
  "allocatePort_try got pm =
     (case got of
        None \<Rightarrow> Inl GetPortThrew
      | Some port \<Rightarrow>
          if port < startPort pm \<or> port > endPort pm then Inl (OutOfRange port)
          else if port \<in> allocatedPorts pm then Inl (AllocationConflict port)
          else Inr (port, pm\<lparr>allocatedPorts := insert port (allocatedPorts pm)\<rparr>))"

definition allocatePort :: "int option \<Rightarrow> port_manager \<Rightarrow> error + (int \<times> port_manager)" where
  "allocatePort got pm =
     (case allocatePort_try got pm of
        Inl _ \<Rightarrow> Inl NoAvailablePorts
      | Inr r \<Rightarrow> Inr r)"

text \<open>
  \<^verbatim>\<open>releasePort\<close> returns nothing and never throws; the model returns the level of the one
  log record it writes together with the manager.
\<close>

definition releasePort :: "int \<Rightarrow> port_manager \<Rightarrow> log_level \<times> port_manager" where
  "releasePort port pm =
     (if port \<in> allocatedPorts pm
      then (LogInfo, pm\<lparr>allocatedPorts := allocatedPorts pm - {port}\<rparr>)
      else (LogWarn, pm))"

definition getAvailablePortCount :: "port_manager \<Rightarrow> int" where
  "getAvailablePortCount pm = (endPort pm - startPort pm + 1) - int (card (allocatedPorts pm))"

definition clearAll :: "port_manager \<Rightarrow> port_manager" where
  "clearAll pm = pm\<lparr>allocatedPorts := {}\<rparr>"

subsection \<open>Sequences of calls on one manager\<close>

text \<open>
  The service runs on one event loop: between the \<^verbatim>\<open>await getPort\<close> and the
  \<^verbatim>\<open>allocatedPorts.add\<close> of one call no other code runs, so concurrent callers are
  a sequence of calls, each with the outcome \<^verbatim>\<open>getPort\<close> had for it. The calls are the
  three methods that write the set: \<^verbatim>\<open>allocatePort\<close>, \<^verbatim>\<open>releasePort\<close> and \<^verbatim>\<open>clearAll\<close>.
\<close>

datatype port_op = Allocate "int option" | Release int | ClearAll

datatype port_event = Allocated int | AllocationFailed | Released int | Cleared

definition port_step :: "port_op \<Rightarrow> port_manager \<Rightarrow> port_event \<times> port_manager" where
  "port_step op pm =
     (case op of
        Allocate got \<Rightarrow>
          (case allocatePort got pm of
             Inl _ \<Rightarrow> (AllocationFailed, pm)
           | Inr (port, pm') \<Rightarrow> (Allocated port, pm'))
      | Release port \<Rightarrow> (Released port, snd (releasePort port pm))
      | ClearAll \<Rightarrow> (Cleared, clearAll pm))"

fun run_port_ops :: "port_op list \<Rightarrow> port_manager \<Rightarrow> port_event list \<times> port_manager" where
  "run_port_ops [] pm = ([], pm)"
| "run_port_ops (op # ops) pm =
     (case port_step op pm of
        (e, pm') \<Rightarrow> (case run_port_ops ops pm' of (es, pm'') \<Rightarrow> (e # es, pm'')))"

text \<open>
  The ports that successful calls returned and that were not released since, in the
  order of the calls; \<open>held\<close> is the list before the events.
\<close>

fun holding :: "int list \<Rightarrow> port_event list \<Rightarrow> int list" where
  "holding held [] = held"
| "holding held (Allocated p # es) = holding (held @ [p]) es"
| "holding held (AllocationFailed # es) = holding held es"
| "holding held (Released p # es) = holding (remove1 p held) es"
| "holding held (Cleared # es) = holding [] es"

text \<open>
  The bookkeeping invariant of the manager along such a sequence: the held ports are
  pairwise different, they are exactly the allocated set, and the set lies in the range.
\<close>

definition ports_inv :: "int list \<Rightarrow> port_manager \<Rightarrow> bool" where
  "ports_inv held pm \<longleftrightarrow>
     distinct held \<and> set held = allocatedPorts pm \<and>
     allocatedPorts pm \<subseteq> {startPort pm..endPort pm}"

section \<open>Requests (types.ts)\<close>

text \<open>
  A request body arrives as parsed JSON. \<open>json\<close> is the value type of the two free-form
  objects \<^verbatim>\<open>frontmatter\<close> and \<^verbatim>\<open>config\<close>; an object lists its entries in the order
  \<^verbatim>\<open>Object.entries\<close> enumerates them. Numbers are the integers, strings are lists of
  \<open>char\<close> (one \<open>char\<close> per code unit of the JavaScript string).
\<close>

datatype json =
    JNull
  | JBool bool
  | JNum int
  | JStr string
  | JArr "json list"
  | JObj "(string \<times> json) list"

record ppt_request =
  content :: string
  title :: "string option"
  theme :: "string option"
  config :: "(string \<times> json) list option"
  ttl :: "int option"
  customCSS :: "string option"
  frontmatter :: "(string \<times> json) list option"

text \<open>
  An optional string as a condition (\<^verbatim>\<open>if (x)\<close>) is true when it is present and not
  empty; \<^verbatim>\<open>x || d\<close> is the default for \<^verbatim>\<open>undefined\<close> and for the empty string.
\<close>

definition truthy :: "string option \<Rightarrow> bool" where
  "truthy x \<longleftrightarrow> (case x of None \<Rightarrow> False | Some s \<Rightarrow> s \<noteq> [])"

definition or_default :: "string option \<Rightarrow> string \<Rightarrow> string" where
  "or_default x d = (case x of None \<Rightarrow> d | Some s \<Rightarrow> if s = [] then d else s)"

section \<open>JSON.stringify\<close>

definition digit_char :: "nat \<Rightarrow> char" where
  "digit_char d = char_of (48 + d)"

fun decimal :: "nat \<Rightarrow> string" where
  "decimal n = (if n < 10 then [digit_char n] else decimal (n div 10) @ [digit_char (n mod 10)])"

definition show_int :: "int \<Rightarrow> string" where
  "show_int i = (if i < 0 then CHR ''-'' # decimal (nat (- i)) else decimal (nat i))"

definition hex_char :: "nat \<Rightarrow> char" where
  "hex_char d = (if d < 10 then char_of (48 + d) else char_of (87 + d))"

definition escape_char :: "char \<Rightarrow> string" where
  "escape_char c =
     (let n = (of_char c :: nat) in
      if n = 34 then [CHR 0x5C, CHR 0x22]
      else if n = 92 then [CHR 0x5C, CHR 0x5C]
      else if n = 8 then [CHR 0x5C, CHR ''b'']
      else if n = 12 then [CHR 0x5C, CHR ''f'']
      else if n = 10 then [CHR 0x5C, CHR ''n'']
      else if n = 13 then [CHR 0x5C, CHR ''r'']
      else if n = 9 then [CHR 0x5C, CHR ''t'']
      else if n < 32 then [CHR 0x5C, CHR ''u'', CHR ''0'', CHR ''0'', hex_char (n div 16), hex_char (n mod 16)]
      else [c])"

definition quote_json :: "string \<Rightarrow> string" where
  "quote_json s = CHR 0x22 # concat (map escape_char s) @ [CHR 0x22]"

fun join_with :: "string \<Rightarrow> string list \<Rightarrow> string" where
  "join_with sep [] = []"
| "join_with sep [x] = x"
| "join_with sep (x # y # ys) = x @ sep @ join_with sep (y # ys)"

primrec stringify :: "json \<Rightarrow> string" where
  "stringify JNull = ''null''"
| "stringify (JBool b) = (if b then ''true'' else ''false'')"
| "stringify (JNum n) = show_int n"
| "stringify (JStr s) = quote_json s"
| "stringify (JArr xs) = ''['' @ join_with '','' (map stringify xs) @ '']''"
| "stringify (JObj kvs) =
     ''{'' @ join_with '','' (map (\<lambda>kv. quote_json (fst kv) @ '':'' @ snd kv) (map (map_prod id stringify) kvs)) @ ''}''"

section \<open>ProjectGenerator.createSlidesFile and DockerManager.createSlidesFile\<close>

text \<open>
  The object literal of \<^verbatim>\<open>createSlidesFile\<close>: five defaults, then the spread of
  \<^verbatim>\<open>request.frontmatter\<close>, then the spread of \<^verbatim>\<open>request.config\<close>. Assigning a key
  that is present keeps its place and replaces its value, a new key goes last: this is
  \<open>AList.update\<close>. Spreading \<^verbatim>\<open>undefined\<close> adds nothing. (JavaScript enumerates keys
  that are array indices, such as \<^verbatim>\<open>"0"\<close>, before all others; the order of the lines is
  that of the list here, and no statement below depends on it.)
\<close>

definition frontmatter_defaults :: "ppt_request \<Rightarrow> (string \<times> json) list" where
  "frontmatter_defaults req =
     [(''theme'', JStr (or_default (theme req) ''default'')),
      (''title'', JStr (or_default (title req) ''Generated Presentation'')),
      (''class'', JStr ''text-center''),
      (''transition'', JStr ''slide-left''),
      (''mdc'', JBool True)]"

definition spread :: "(string \<times> json) list option \<Rightarrow> (string \<times> json) list \<Rightarrow> (string \<times> json) list" where
  "spread src obj =
     (case src of
        None \<Rightarrow> obj
      | Some entries \<Rightarrow> foldl (\<lambda>acc kv. AList.update (fst kv) (snd kv) acc) obj entries)"

definition merged_frontmatter :: "ppt_request \<Rightarrow> (string \<times> json) list" where
  "merged_frontmatter req =
     spread (config req) (spread (frontmatter req) (frontmatter_defaults req))"

text \<open>The callback of \<^verbatim>\<open>.map\<close> in project-generator.ts: a string value goes between double quotes.\<close>

definition yaml_line :: "string \<times> json \<Rightarrow> string" where
  "yaml_line kv =
     (case snd kv of
        JStr s \<Rightarrow> fst kv @ '': '' @ [CHR 0x22] @ s @ [CHR 0x22]
      | v \<Rightarrow> fst kv @ '': '' @ stringify v)"

text \<open>The callback of \<^verbatim>\<open>.map\<close> in docker-manager.ts: a string value is written as it is.\<close>

definition docker_yaml_line :: "string \<times> json \<Rightarrow> string" where
  "docker_yaml_line kv =
     (case snd kv of
        JStr s \<Rightarrow> fst kv @ '': '' @ s
      | v \<Rightarrow> fst kv @ '': '' @ stringify v)"

definition frontmatterYaml :: "ppt_request \<Rightarrow> string" where
  "frontmatterYaml req = join_with [CHR 0x0A] (map yaml_line (merged_frontmatter req))"

definition docker_frontmatterYaml :: "ppt_request \<Rightarrow> string" where
  "docker_frontmatterYaml req =
     join_with [CHR 0x0A] (map docker_yaml_line (merged_frontmatter req))"

definition slidesContent :: "ppt_request \<Rightarrow> string" where
  "slidesContent req =
     ''---'' @ [CHR 0x0A] @ frontmatterYaml req @ [CHR 0x0A] @ ''---'' @ [CHR 0x0A, CHR 0x0A] @
     content req @ [CHR 0x0A]"

definition docker_slidesContent :: "ppt_request \<Rightarrow> string" where
  "docker_slidesContent req =
     ''---'' @ [CHR 0x0A] @ docker_frontmatterYaml req @ [CHR 0x0A] @ ''---'' @ [CHR 0x0A, CHR 0x0A] @
     content req @ [CHR 0x0A]"

section \<open>Child processes\<close>

text \<open>
  What the service reads and does on a \<^verbatim>\<open>ChildProcess\<close>: the flag \<^verbatim>\<open>killed\<close>, which Node
  sets once a signal was delivered by \<^verbatim>\<open>kill\<close>, and \<^verbatim>\<open>kill\<close> itself, which delivers
  nothing to a process that has exited. The world keeps every process object the
  service created in a list; a handle is an index into it.
\<close>

datatype signal = SIGTERM | SIGKILL

record child_process =
  exited :: bool
  killed :: bool
  signals :: "signal list"

definition fresh_process :: "bool \<Rightarrow> child_process" where
  "fresh_process ex = \<lparr>exited = ex, killed = False, signals = []\<rparr>"

definition is_killed :: "nat \<Rightarrow> child_process list \<Rightarrow> bool" where
  "is_killed h ps \<longleftrightarrow> h < length ps \<and> killed (ps ! h)"

definition kill :: "nat \<Rightarrow> signal \<Rightarrow> child_process list \<Rightarrow> child_process list" where
  "kill h sig ps =
     (if h < length ps \<and> \<not> exited (ps ! h)
      then ps[h := (ps ! h)\<lparr>killed := True, signals := signals (ps ! h) @ [sig]\<rparr>]
      else ps)"

section \<open>Instances, configuration and the state of the service\<close>

datatype status = Generating | Ready | Error | Expired

record presentation_instance =
  inst_id :: string
  projectPath :: string
  server :: nat
  port :: int
  createdAt :: int
  expiresAt :: int
  status :: status
  error :: "string option"
  request :: ppt_request

record ppt_response =
  r_id :: string
  r_url :: string
  r_status :: status
  r_expiresAt :: int
  r_createdAt :: int
  r_urls :: "string list"

record server_config =
  baseUrl :: string
  tempDir :: string
  maxConcurrentPresentations :: int
  defaultTTL :: int

text \<open>
  A project directory with the two files whose text comes from the request. The file
  system maps the path of each existing project directory to its content.
\<close>

record project_dir =
  slides_md :: "string option"
  custom_css :: "string option"

type_synonym filesystem = "string \<rightharpoonup> project_dir"

text \<open>
  \<^verbatim>\<open>instances\<close> is a \<^verbatim>\<open>Map\<close>: an association list in insertion order, which is the
  order of \<^verbatim>\<open>for ... of this.instances\<close>. Its keys are pairwise different (every
  operation keeps them so, see \<open>exec_distinct_keys\<close>), hence \<^verbatim>\<open>instances.size\<close> is the
  length of the list. Times are milliseconds since the epoch, as integers.
\<close>

record world =
  instances :: "(string \<times> presentation_instance) list"
  portManager :: port_manager
  fs :: filesystem
  processes :: "child_process list"

definition getPresentation :: "string \<Rightarrow> world \<Rightarrow> presentation_instance option" where
  "getPresentation i w = map_of (instances w) i"

definition getAllPresentations :: "world \<Rightarrow> presentation_instance list" where
  "getAllPresentations w = map snd (instances w)"

section \<open>ProjectGenerator (project-generator.ts)\<close>

text \<open>
  The calls of \<^verbatim>\<open>createProjectWithoutDeps\<close> into fs-extra, in order. Whether a call throws
  is the environment's: \<open>fsThrows\<close> gives the error a step raises, \<open>removeThrows\<close> the error
  \<^verbatim>\<open>fs.remove\<close> raises on a path. A failed \<^verbatim>\<open>fs.remove\<close> leaves the directory in place.
\<close>

datatype fs_step =
    EnsureTempDir
  | EnsureProjectDir
  | WriteSlides
  | EnsureComponents
  | EnsurePublic
  | WriteCustomCSS
  | WriteViteConfig
  | CopyNodeModules

datatype spawn_outcome = SpawnReady | SpawnErrorEvent string | SpawnExit int | SpawnTimeout

record create_env =
  nanoid :: string
  fsThrows :: "fs_step \<Rightarrow> error option"
  templateValid :: bool
  removeThrows :: "string \<Rightarrow> error option"
  gotPort :: "int option"
  dateNow :: int
  spawned :: spawn_outcome
  fetchOk :: "nat \<Rightarrow> bool"
  newDate :: int

definition join :: "string \<Rightarrow> string \<Rightarrow> string" where
  "join dir name = dir @ ''/'' @ name"

definition generateProjectId :: "create_env \<Rightarrow> string" where
  "generateProjectId env = ''slidev-'' @ nanoid env"

definition empty_dir :: project_dir where
  "empty_dir = \<lparr>slides_md = None, custom_css = None\<rparr>"

definition write_in :: "string \<Rightarrow> (project_dir \<Rightarrow> project_dir) \<Rightarrow> filesystem \<Rightarrow> filesystem" where
  "write_in path f files = (case files path of None \<Rightarrow> files | Some d \<Rightarrow> files(path \<mapsto> f d))"

definition apply_step :: "fs_step \<Rightarrow> ppt_request \<Rightarrow> string \<Rightarrow> filesystem \<Rightarrow> filesystem" where
  "apply_step step req path files =
     (case step of
        EnsureProjectDir \<Rightarrow> (case files path of None \<Rightarrow> files(path \<mapsto> empty_dir) | Some _ \<Rightarrow> files)
      | WriteSlides \<Rightarrow> write_in path (\<lambda>d. d\<lparr>slides_md := Some (slidesContent req)\<rparr>) files
      | WriteCustomCSS \<Rightarrow> write_in path (\<lambda>d. d\<lparr>custom_css := customCSS req\<rparr>) files
      | _ \<Rightarrow> files)"

definition scaffold_steps :: "create_env \<Rightarrow> ppt_request \<Rightarrow> fs_step list" where
  "scaffold_steps env req =
     [EnsureTempDir, EnsureProjectDir, WriteSlides, EnsureComponents, EnsurePublic] @
     (if truthy (customCSS req) then [WriteCustomCSS] else []) @
     [WriteViteConfig] @
     (if templateValid env then [CopyNodeModules] else [])"

fun run_steps :: "(fs_step \<Rightarrow> error option) \<Rightarrow> ppt_request \<Rightarrow> string \<Rightarrow> fs_step list \<Rightarrow> filesystem
    \<Rightarrow> error option \<times> filesystem" where
  "run_steps throws req path [] files = (None, files)"
| "run_steps throws req path (step # steps) files =
     (case throws step of
        Some e \<Rightarrow> (Some e, files)
      | None \<Rightarrow> run_steps throws req path steps (apply_step step req path files))"

definition fs_remove :: "(string \<Rightarrow> error option) \<Rightarrow> string \<Rightarrow> filesystem \<Rightarrow> error option \<times> filesystem" where
  "fs_remove throws path files =
     (case throws path of
        Some e \<Rightarrow> (Some e, files)
      | None \<Rightarrow> (None, files(path := None)))"

definition createProjectWithoutDeps ::
    "server_config \<Rightarrow> create_env \<Rightarrow> ppt_request \<Rightarrow> world \<Rightarrow> (error + string \<times> string) \<times> world" where
  "createProjectWithoutDeps cfg env req w =
     (let i = generateProjectId env;
          path = join (tempDir cfg) i
      in case run_steps (fsThrows env) req path (scaffold_steps env req) (fs w) of
           (None, files) \<Rightarrow> (Inr (i, path), w\<lparr>fs := files\<rparr>)
         | (Some e, files) \<Rightarrow> (Inl e, w\<lparr>fs := snd (fs_remove (removeThrows env) path files)\<rparr>))"

definition cleanupProject :: "(string \<Rightarrow> error option) \<Rightarrow> string \<Rightarrow> world \<Rightarrow> error option \<times> world" where
  "cleanupProject throws path w =
     (case fs_remove throws path (fs w) of (r, files) \<Rightarrow> (r, w\<lparr>fs := files\<rparr>))"

section \<open>PresentationManager (presentation-manager.ts)\<close>

text \<open>
  \<^verbatim>\<open>startSlidevProcess\<close> settles in one of four ways: the readiness text appears on
  stdout (resolve), the \<^verbatim>\<open>error\<close> event fires, the process exits, or 180 seconds pass
  and the method kills the process. An exit with code 0 before the readiness text
  settles nothing, so the timer ends that run as well.
\<close>

definition startSlidevProcess :: "spawn_outcome \<Rightarrow> child_process list \<Rightarrow> (error + nat) \<times> child_process list" where
  "startSlidevProcess outcome ps =
     (case outcome of
        SpawnReady \<Rightarrow> (Inr (length ps), ps @ [fresh_process False])
      | SpawnErrorEvent c \<Rightarrow> (Inl (SpawnFailed c), ps @ [fresh_process True])
      | SpawnExit c \<Rightarrow>
          if c \<noteq> 0 then (Inl (ProcessExited c), ps @ [fresh_process True])
          else (Inl StartupTimeout, kill (length ps) SIGKILL (ps @ [fresh_process True]))
      | SpawnTimeout \<Rightarrow> (Inl StartupTimeout, kill (length ps) SIGKILL (ps @ [fresh_process False])))"

text \<open>
  The loop of \<^verbatim>\<open>waitForServerReady\<close>: attempt \<open>i\<close> of \<open>maxAttempts = 60\<close> fetches the
  port; \<open>ok i\<close> says that this fetch answered with \<^verbatim>\<open>response.ok\<close>.
\<close>

fun wait_loop :: "(nat \<Rightarrow> bool) \<Rightarrow> nat \<Rightarrow> nat \<Rightarrow> bool" where
  "wait_loop ok i 0 = False"
| "wait_loop ok i (Suc n) = (if ok i then True else wait_loop ok (Suc i) n)"

definition waitForServerReady :: "(nat \<Rightarrow> bool) \<Rightarrow> int \<Rightarrow> error option" where
  "waitForServerReady ok p = (if wait_loop ok 0 60 then None else Some (ServerFailedToStart p))"

text \<open>
  The \<^verbatim>\<open>catch\<close> around start and wait: \<open>proc\<close> is the variable \<^verbatim>\<open>slidevProcess\<close>, still
  \<^verbatim>\<open>null\<close> when \<^verbatim>\<open>startSlidevProcess\<close> rejected. An error of \<^verbatim>\<open>cleanupProject\<close> leaves
  the block in place of the \<^verbatim>\<open>throw error\<close> below it.
\<close>

definition start_failed :: "create_env \<Rightarrow> nat option \<Rightarrow> int \<Rightarrow> string \<Rightarrow> error \<Rightarrow> world \<Rightarrow> error \<times> world" where
  "start_failed env proc p path e w =
     (let ps = (case proc of
                  None \<Rightarrow> processes w
                | Some h \<Rightarrow> if \<not> is_killed h (processes w) then kill h SIGKILL (processes w)
                            else processes w);
          w1 = w\<lparr>processes := ps, portManager := snd (releasePort p (portManager w))\<rparr>
      in case cleanupProject (removeThrows env) path w1 of
           (Some e', w2) \<Rightarrow> (e', w2)
         | (None, w2) \<Rightarrow> (e, w2))"

definition make_response :: "server_config \<Rightarrow> presentation_instance \<Rightarrow> ppt_response" where
  "make_response cfg inst =
     (let base = baseUrl cfg @ '':'' @ show_int (port inst)
      in \<lparr>r_id = inst_id inst, r_url = base, r_status = Ready,
          r_expiresAt = expiresAt inst, r_createdAt = createdAt inst,
          r_urls = [base @ ''/'', base @ ''/presenter/'', base @ ''/overview/'', base @ ''/print'']\<rparr>)"

definition createPresentation ::
    "server_config \<Rightarrow> create_env \<Rightarrow> ppt_request \<Rightarrow> world \<Rightarrow> (error + ppt_response) \<times> world" where
  "createPresentation cfg env req w =
     (if int (length (instances w)) \<ge> maxConcurrentPresentations cfg
      then (Inl MaxConcurrentReached, w)
      else
        case createProjectWithoutDeps cfg env req w of
          (Inl e, w1) \<Rightarrow> (Inl e, w1)
        | (Inr (i, path), w1) \<Rightarrow>
            (case allocatePort (gotPort env) (portManager w1) of
               Inl e \<Rightarrow> (Inl e, w1)
             | Inr (p, pm) \<Rightarrow>
                 let w2 = w1\<lparr>portManager := pm\<rparr>;
                     t = (case ttl req of None \<Rightarrow> defaultTTL cfg
                          | Some n \<Rightarrow> if n = 0 then defaultTTL cfg else n);
                     expires = dateNow env + t
                 in case startSlidevProcess (spawned env) (processes w2) of
                      (Inl e, ps) \<Rightarrow>
                        (case start_failed env None p path e (w2\<lparr>processes := ps\<rparr>) of
                           (e', w3) \<Rightarrow> (Inl e', w3))
                    | (Inr h, ps) \<Rightarrow>
                        (case waitForServerReady (fetchOk env) p of
                           Some e \<Rightarrow>
                             (case start_failed env (Some h) p path e (w2\<lparr>processes := ps\<rparr>) of
                                (e', w3) \<Rightarrow> (Inl e', w3))
                         | None \<Rightarrow>
                             let inst = \<lparr>inst_id = i, projectPath = path, server = h, port = p,
                                         createdAt = newDate env, expiresAt = expires,
                                         status = Ready, error = None, request = req\<rparr>
                             in (Inr (make_response cfg inst),
                                 w2\<lparr>processes := ps,
                                    instances := AList.update i inst (instances w2)\<rparr>))))"

text \<open>
  \<^verbatim>\<open>deletePresentation\<close>: signal the process, release the port, remove the directory,
  and only then drop the map entry. The second \<^verbatim>\<open>kill\<close> is guarded by the flag that
  the first one sets.
\<close>

definition terminate :: "nat \<Rightarrow> child_process list \<Rightarrow> child_process list" where
  "terminate h ps =
     (if \<not> is_killed h ps
      then (let ps1 = kill h SIGTERM ps
            in if \<not> is_killed h ps1 then kill h SIGKILL ps1 else ps1)
      else ps)"

definition deletePresentation :: "(string \<Rightarrow> error option) \<Rightarrow> string \<Rightarrow> world \<Rightarrow> (error + bool) \<times> world" where
  "deletePresentation throws i w =
     (case map_of (instances w) i of
        None \<Rightarrow> (Inr False, w)
      | Some inst \<Rightarrow>
          let w1 = w\<lparr>processes := terminate (server inst) (processes w),
                     portManager := snd (releasePort (port inst) (portManager w))\<rparr>
          in case cleanupProject throws (projectPath inst) w1 of
               (Some e, w2) \<Rightarrow> (Inl e, w2)
             | (None, w2) \<Rightarrow> (Inr True, w2\<lparr>instances := AList.delete i (instances w2)\<rparr>))"

text \<open>
  \<^verbatim>\<open>cleanupExpired\<close>: the ids are collected first, with \<open>now\<close> read once; then each is
  deleted inside its own \<^verbatim>\<open>try\<close>, and a deletion that returns is counted.
\<close>

definition expiredIds :: "int \<Rightarrow> world \<Rightarrow> string list" where
  "expiredIds now w = map fst (filter (\<lambda>kv. expiresAt (snd kv) \<le> now) (instances w))"

fun delete_each :: "(string \<Rightarrow> error option) \<Rightarrow> string list \<Rightarrow> nat \<Rightarrow> world \<Rightarrow> nat \<times> world" where
  "delete_each throws [] cleanedCount w = (cleanedCount, w)"
| "delete_each throws (i # ids) cleanedCount w =
     (case deletePresentation throws i w of
        (Inl e, w1) \<Rightarrow> delete_each throws ids cleanedCount w1
      | (Inr b, w1) \<Rightarrow> delete_each throws ids (Suc cleanedCount) w1)"

definition cleanupExpired :: "int \<Rightarrow> (string \<Rightarrow> error option) \<Rightarrow> world \<Rightarrow> nat \<times> world" where
  "cleanupExpired now throws w = delete_each throws (expiredIds now w) 0 w"

definition shutdown :: "(string \<Rightarrow> error option) \<Rightarrow> world \<Rightarrow> world" where
  "shutdown throws w =
     (let w1 = snd (delete_each throws (map fst (instances w)) 0 w)
      in w1\<lparr>portManager := clearAll (portManager w1)\<rparr>)"

section \<open>Validation (validation.ts)\<close>

text \<open>
  The rules of the Joi schemas on a body whose fields have their declared types. A
  Joi string rejects the empty string (\<^verbatim>\<open>string.empty\<close>); with \<^verbatim>\<open>abortEarly: false\<close>
  every failing rule is reported. Each detail is the field with the type of the failure.
  \<^verbatim>\<open>ttl\<close> is a number of milliseconds, an integer here. The character class of the theme
  pattern, \<^verbatim>\<open>[a-zA-Z0-9-_]\<close>, and that of the id pattern, \<^verbatim>\<open>[a-zA-Z0-9_-]\<close>, are the same
  set: letters, digits, hyphen and underscore (\<open>theme_char\<close>).
\<close>

definition string_max :: "string \<Rightarrow> nat \<Rightarrow> string \<Rightarrow> (string \<times> string) list" where
  "string_max field n v =
     (if v = [] then [(field, ''string.empty'')]
      else if length v > n then [(field, ''string.max'')] else [])"

definition optional :: "('a \<Rightarrow> (string \<times> string) list) \<Rightarrow> 'a option \<Rightarrow> (string \<times> string) list" where
  "optional rule v = (case v of None \<Rightarrow> [] | Some x \<Rightarrow> rule x)"

definition theme_char :: "char \<Rightarrow> bool" where
  "theme_char c =
     (let n = (of_char c :: nat)
      in (97 \<le> n \<and> n \<le> 122) \<or> (65 \<le> n \<and> n \<le> 90) \<or> (48 \<le> n \<and> n \<le> 57) \<or> n = 45 \<or> n = 95)"

definition theme_rule :: "string \<Rightarrow> (string \<times> string) list" where
  "theme_rule v =
     (if v = [] then [(''theme'', ''string.empty'')]
      else (if list_all theme_char v then [] else [(''theme'', ''string.pattern.base'')]) @
           (if length v > 50 then [(''theme'', ''string.max'')] else []))"

definition ttl_rule :: "int \<Rightarrow> (string \<times> string) list" where
  "ttl_rule n =
     (if n < 60000 then [(''ttl'', ''number.min'')]
      else if n > 86400000 then [(''ttl'', ''number.max'')] else [])"

definition generatePPTSchema :: "ppt_request \<Rightarrow> (string \<times> string) list" where
  "generatePPTSchema body =
     string_max ''content'' 1000000 (content body) @
     optional (string_max ''title'' 200) (title body) @
     optional theme_rule (theme body) @
     optional ttl_rule (ttl body) @
     optional (string_max ''customCSS'' 100000) (customCSS body)"

text \<open>\<^verbatim>\<open>presentationIdSchema\<close>: the pattern \<^verbatim>\<open>/^slidev-[a-zA-Z0-9_-]{12}$/\<close>.\<close>

definition presentationIdSchema :: "string \<Rightarrow> bool" where
  "presentationIdSchema i \<longleftrightarrow>
     take 7 i = ''slidev-'' \<and> length i = 19 \<and> list_all theme_char (drop 7 i)"

text \<open>The body schema of the extend route: \<^verbatim>\<open>ttl\<close> is required there.\<close>

definition extendSchema :: "int option \<Rightarrow> (string \<times> string) list" where
  "extendSchema t = (case t of None \<Rightarrow> [(''ttl'', ''any.required'')] | Some n \<Rightarrow> ttl_rule n)"

text \<open>
  \<^verbatim>\<open>String.prototype.trim\<close> removes white space and line terminators at both ends; among
  the code units below 256 these are tab, line feed, vertical tab, form feed, carriage
  return, space and no-break space.
\<close>

definition is_space :: "char \<Rightarrow> bool" where
  "is_space c = ((of_char c :: nat) \<in> {9, 10, 11, 12, 13, 32, 160})"

definition trim :: "string \<Rightarrow> string" where
  "trim s = rev (dropWhile is_space (rev (dropWhile is_space s)))"

section \<open>Responses and the error handler (error-handler.ts)\<close>

text \<open>
  A response is its status with the \<^verbatim>\<open>code\<close> of an error body, or a success body. The
  errors that \<^verbatim>\<open>createPresentation\<close> throws are plain \<^verbatim>\<open>Error\<close> objects, not \<^verbatim>\<open>AppError\<close>:
  the handler tells them apart only by the \<^verbatim>\<open>code\<close> property of a Node error.
\<close>

datatype http_response =
    HttpError nat string
  | HttpCreated ppt_response
  | HttpExtended string int
  | HttpNoContent

definition statusCode :: "http_response \<Rightarrow> nat" where
  "statusCode r =
     (case r of HttpError n _ \<Rightarrow> n | HttpCreated _ \<Rightarrow> 201 | HttpExtended _ _ \<Rightarrow> 200 | HttpNoContent \<Rightarrow> 204)"

definition node_code :: "error \<Rightarrow> string" where
  "node_code e = (case e of FsError c \<Rightarrow> c | SpawnFailed c \<Rightarrow> c | _ \<Rightarrow> [])"

definition errorHandler :: "error \<Rightarrow> http_response" where
  "errorHandler e =
     (if node_code e = ''EADDRINUSE'' then HttpError 503 ''PORT_IN_USE''
      else if node_code e = ''ENOENT'' then HttpError 500 ''FILE_NOT_FOUND''
      else if node_code e = ''ENOSPC'' then HttpError 507 ''INSUFFICIENT_STORAGE''
      else HttpError 500 ''INTERNAL_ERROR'')"

section \<open>Routes (routes.ts)\<close>

text \<open>
  A route is reached by a request that passed the middleware of the server (rate
  limiter, JSON body parser, content type check), with its parsed body.
  \<^verbatim>\<open>POST /presentations\<close>: \<^verbatim>\<open>validateBody(generatePPTSchema)\<close>, then
  \<^verbatim>\<open>validatePresentationRequest\<close>, then the handler. The result of \<^verbatim>\<open>sanitizeMarkdown\<close>
  (three regular-expression replacements and a trim) and the verdict of the health
  monitor (memory above 90 percent, disk above 95, port utilization above 90, or a
  failed check) are arguments: \<open>sanitize\<close> and \<open>unhealthy\<close>. The properties below hold
  for every value of both.
\<close>

definition postPresentations ::
    "server_config \<Rightarrow> (string \<Rightarrow> string) \<Rightarrow> bool \<Rightarrow> create_env \<Rightarrow> ppt_request \<Rightarrow> world
      \<Rightarrow> http_response \<times> world" where
  "postPresentations cfg sanitize unhealthy env body w =
     (if generatePPTSchema body \<noteq> [] then (HttpError 400 ''VALIDATION_ERROR'', w)
      else if content body \<noteq> [] \<and> length (trim (content body)) < 10
      then (HttpError 400 ''CONTENT_TOO_SHORT'', w)
      else
        let req = (if content body \<noteq> [] then body\<lparr>content := sanitize (content body)\<rparr> else body)
        in if unhealthy then (HttpError 503 ''SERVICE_UNAVAILABLE'', w)
           else if getAvailablePortCount (portManager w) = 0
           then (HttpError 507 ''INSUFFICIENT_RESOURCES'', w)
           else case createPresentation cfg env req w of
                  (Inl e, w1) \<Rightarrow> (errorHandler e, w1)
                | (Inr r, w1) \<Rightarrow> (HttpCreated r, w1))"

text \<open>
  \<^verbatim>\<open>POST /presentations/:id/extend\<close>: \<open>now\<close> is \<^verbatim>\<open>Date.now()\<close>. The handler assigns to
  the object that the map holds, so the entry keeps its place in the map.
\<close>

definition extendPresentation :: "int \<Rightarrow> string \<Rightarrow> int option \<Rightarrow> world \<Rightarrow> http_response \<times> world" where
  "extendPresentation now i body_ttl w =
     (if \<not> presentationIdSchema i then (HttpError 400 ''VALIDATION_ERROR'', w)
      else if extendSchema body_ttl \<noteq> [] then (HttpError 400 ''VALIDATION_ERROR'', w)
      else
        case (getPresentation i w, body_ttl) of
          (Some inst, Some t) \<Rightarrow>
            (HttpExtended (inst_id inst) (now + t),
             w\<lparr>instances := AList.update i (inst\<lparr>expiresAt := now + t\<rparr>) (instances w)\<rparr>)
        | _ \<Rightarrow> (HttpError 404 ''NOT_FOUND'', w))"

definition deleteRoute :: "(string \<Rightarrow> error option) \<Rightarrow> string \<Rightarrow> world \<Rightarrow> http_response \<times> world" where
  "deleteRoute throws i w =
     (if \<not> presentationIdSchema i then (HttpError 400 ''VALIDATION_ERROR'', w)
      else case deletePresentation throws i w of
             (Inl e, w1) \<Rightarrow> (errorHandler e, w1)
           | (Inr deleted, w1) \<Rightarrow> (if deleted then HttpNoContent else HttpError 404 ''NOT_FOUND'', w1))"

section \<open>Runs of the service\<close>

text \<open>
  The operations that change the registry, each with what the environment did during
  it. A run starts from a state with an empty map.
\<close>

datatype operation =
    Create create_env ppt_request
  | Delete "string \<Rightarrow> error option" string
  | Cleanup int "string \<Rightarrow> error option"
  | Extend int string "int option"
  | Shutdown "string \<Rightarrow> error option"

definition exec_op :: "server_config \<Rightarrow> operation \<Rightarrow> world \<Rightarrow> world" where
  "exec_op cfg op w =
     (case op of
        Create env req \<Rightarrow> snd (createPresentation cfg env req w)
      | Delete throws i \<Rightarrow> snd (deletePresentation throws i w)
      | Cleanup now throws \<Rightarrow> snd (cleanupExpired now throws w)
      | Extend now i t \<Rightarrow> snd (extendPresentation now i t w)
      | Shutdown throws \<Rightarrow> shutdown throws w)"

definition exec :: "server_config \<Rightarrow> operation list \<Rightarrow> world \<Rightarrow> world" where
  "exec cfg ops w = foldl (\<lambda>w' op. exec_op cfg op w') w ops"

section \<open>The default configuration and a first run\<close>

text \<open>
  \<^verbatim>\<open>createDefaultConfig\<close> with no environment variable set (on a system whose
  \<^verbatim>\<open>tmpdir()\<close> is \<^verbatim>\<open>/tmp\<close>), the state of a service that has just started with the
  default port range, and one request with an environment in which nothing fails.
\<close>

definition createDefaultConfig :: server_config where
  "createDefaultConfig =
     \<lparr>baseUrl = ''http://localhost'', tempDir = ''/tmp/slidev-api'',
      maxConcurrentPresentations = 10, defaultTTL = 3600000\<rparr>"

definition initial_world :: world where
  "initial_world =
     \<lparr>instances = [],
      portManager = \<lparr>startPort = 3002, endPort = 3100, allocatedPorts = {}\<rparr>,
      fs = Map.empty, processes = []\<rparr>"

definition demo_request :: ppt_request where
  "demo_request =
     \<lparr>content = ''# Hello slides'', title = Some ''Demo'', theme = None, config = None,
      ttl = Some 60000, customCSS = None, frontmatter = None\<rparr>"

definition calm_env :: create_env where
  "calm_env =
     \<lparr>nanoid = ''V1StGXR8_Z5j'', fsThrows = (\<lambda>_. None), templateValid = True,
      removeThrows = (\<lambda>_. None), gotPort = Some 3002, dateNow = 1000,
      spawned = SpawnReady, fetchOk = (\<lambda>_. True), newDate = 3000\<rparr>"

definition demo_instance :: presentation_instance where
  "demo_instance =
     \<lparr>inst_id = ''slidev-V1StGXR8_Z5j'', projectPath = ''/tmp/slidev-api/slidev-V1StGXR8_Z5j'',
      server = 0, port = 3002, createdAt = 3000, expiresAt = 61000, status = Ready,
      error = None, request = demo_request\<rparr>"

definition demo_world :: world where
  "demo_world =
     \<lparr>instances = [(''slidev-V1StGXR8_Z5j'', demo_instance)],
      portManager = \<lparr>startPort = 3002, endPort = 3100, allocatedPorts = {3002}\<rparr>,
      fs = [''/tmp/slidev-api/slidev-V1StGXR8_Z5j'' \<mapsto>
              \<lparr>slides_md = Some (slidesContent demo_request), custom_css = None\<rparr>],
      processes = [fresh_process False]\<rparr>"

text \<open>A body whose content has five characters and whose other fields pass the schema.\<close>

definition hello_body :: ppt_request where
  "hello_body =
     \<lparr>content = ''hello'', title = None, theme = Some ''seriph'', config = None,
      ttl = Some 60000, customCSS = None, frontmatter = None\<rparr>"




text \<open>A request whose title contains a colon.\<close>

definition colon_request :: ppt_request where
  "colon_request =
     \<lparr>content = ''# Quarterly numbers'', title = Some ''Q3: results'', theme = None,
      config = None, ttl = None, customCSS = None, frontmatter = None\<rparr>"

text \<open>
  The contract of the library call \<^verbatim>\<open>nanoid(12)\<close>: twelve characters of its alphabet
  \<^verbatim>\<open>A-Za-z0-9_-\<close>. \<open>nanoid_ok\<close> says that a creation's environment kept it.
\<close>

definition nanoid_ok :: "operation \<Rightarrow> bool" where
  "nanoid_ok op =
     (case op of
        Create env _ \<Rightarrow> length (nanoid env) = 12 \<and> list_all theme_char (nanoid env)
      | _ \<Rightarrow> True)"

section \<open>Properties of the port manager\<close>

lemma allocatePort_Inr:
  "allocatePort got pm = Inr (p, pm') \<longleftrightarrow>
     got = Some p \<and> startPort pm \<le> p \<and> p \<le> endPort pm \<and> p \<notin> allocatedPorts pm \<and>
     pm' = pm\<lparr>allocatedPorts := insert p (allocatedPorts pm)\<rparr>"
  by (auto simp: allocatePort_def allocatePort_try_def split: option.splits)

lemma allocatePort_Inl:
  "allocatePort got pm = Inl e \<Longrightarrow> e = NoAvailablePorts"
  by (auto simp: allocatePort_def split: sum.splits)

lemma allocatePort_exhausted:
  assumes "{startPort pm..endPort pm} \<subseteq> allocatedPorts pm"
  shows "allocatePort got pm = Inl NoAvailablePorts"
proof (cases got)
  case None
  then show ?thesis by (simp add: allocatePort_def allocatePort_try_def)
next
  case (Some port)
  show ?thesis
  proof (cases "port < startPort pm \<or> port > endPort pm")
    case True
    with Some show ?thesis by (simp add: allocatePort_def allocatePort_try_def)
  next
    case False
    then have "port \<in> {startPort pm..endPort pm}" by simp
    with assms have "port \<in> allocatedPorts pm" by blast
    with Some False show ?thesis by (simp add: allocatePort_def allocatePort_try_def)
  qed
qed

lemma releasePort_allocated:
  "allocatedPorts (snd (releasePort p pm)) = allocatedPorts pm - {p}"
  by (simp add: releasePort_def)

lemma releasePort_bounds:
  "startPort (snd (releasePort p pm)) = startPort pm \<and> endPort (snd (releasePort p pm)) = endPort pm"
  by (simp add: releasePort_def)

lemma port_step_inv:
  assumes "ports_inv held pm" and "port_step op pm = (e, pm')"
  shows "ports_inv (holding held [e]) pm' \<and> startPort pm' = startPort pm \<and> endPort pm' = endPort pm"
proof (cases op)
  case (Allocate got)
  show ?thesis
  proof (cases "allocatePort got pm")
    case (Inl err)
    with Allocate assms show ?thesis by (auto simp: port_step_def)
  next
    case (Inr r)
    obtain p pm1 where r: "r = (p, pm1)" by (cases r)
    from Inr r have a: "allocatePort got pm = Inr (p, pm1)" by simp
    from a Allocate assms(2) have e: "e = Allocated p" "pm' = pm1" by (auto simp: port_step_def)
    from a have f: "startPort pm \<le> p" "p \<le> endPort pm" "p \<notin> allocatedPorts pm"
      "pm1 = pm\<lparr>allocatedPorts := insert p (allocatedPorts pm)\<rparr>"
      by (simp_all add: allocatePort_Inr)
    with assms(1) e show ?thesis by (auto simp: ports_inv_def)
  qed
next
  case (Release p)
  with assms(2) have e: "e = Released p" "pm' = snd (releasePort p pm)"
    by (auto simp: port_step_def)
  with assms(1) show ?thesis
    by (auto simp: ports_inv_def releasePort_allocated releasePort_bounds)
next
  case ClearAll
  with assms(2) have "e = Cleared" "pm' = clearAll pm" by (auto simp: port_step_def)
  then show ?thesis by (simp add: ports_inv_def clearAll_def)
qed

lemma run_port_ops_inv:
  "ports_inv held pm \<Longrightarrow> run_port_ops ops pm = (es, pm') \<Longrightarrow>
     ports_inv (holding held es) pm' \<and> startPort pm' = startPort pm \<and> endPort pm' = endPort pm"
proof (induction ops arbitrary: held pm es pm')
  case Nil
  then show ?case by simp
next
  case (Cons op ops)
  obtain e pm1 where s: "port_step op pm = (e, pm1)" by (cases "port_step op pm")
  obtain es1 pm2 where r: "run_port_ops ops pm1 = (es1, pm2)" by (cases "run_port_ops ops pm1")
  from Cons.prems(2) s r have es: "es = e # es1" "pm' = pm2" by simp_all
  from port_step_inv [OF Cons.prems(1) s]
  have i1: "ports_inv (holding held [e]) pm1" "startPort pm1 = startPort pm" "endPort pm1 = endPort pm"
    by simp_all
  from Cons.IH [OF i1(1) r]
  have i2: "ports_inv (holding (holding held [e]) es1) pm2" "startPort pm2 = startPort pm1"
    "endPort pm2 = endPort pm1" by simp_all
  have "holding (holding held [e]) es1 = holding held (e # es1)" by (cases e) simp_all
  with i1 i2 es show ?case by simp
qed


text \<open>
  Claim C6. \<^verbatim>\<open>releasePort\<close> on an allocated port removes that port from the set, leaves
  the range alone and logs at level info; on a port that is not allocated it returns
  the manager as it was and logs a warning, so a second release of the same port is
  such a no-op. It has no failing branch. After \<^verbatim>\<open>releasePort(p)\<close> for a port of the
  range, \<^verbatim>\<open>allocatePort\<close> returns \<open>p\<close> when \<^verbatim>\<open>getPort\<close> proposes it.
\<close>

theorem releasePort_idempotent:
  "(p \<in> allocatedPorts pm \<longrightarrow>
      releasePort p pm = (LogInfo, pm\<lparr>allocatedPorts := allocatedPorts pm - {p}\<rparr>)) \<and>
   (p \<notin> allocatedPorts pm \<longrightarrow> releasePort p pm = (LogWarn, pm)) \<and>
   releasePort p (snd (releasePort p pm)) = (LogWarn, snd (releasePort p pm)) \<and>
   (startPort pm \<le> p \<and> p \<le> endPort pm \<longrightarrow>
      allocatePort (Some p) (snd (releasePort p pm)) =
        Inr (p, pm\<lparr>allocatedPorts := insert p (allocatedPorts pm)\<rparr>))"
proof -
  have a: "p \<in> allocatedPorts pm \<longrightarrow>
      releasePort p pm = (LogInfo, pm\<lparr>allocatedPorts := allocatedPorts pm - {p}\<rparr>)"
    by (simp add: releasePort_def)
  have b: "p \<notin> allocatedPorts pm \<longrightarrow> releasePort p pm = (LogWarn, pm)"
    by (simp add: releasePort_def)
  have c: "releasePort p (snd (releasePort p pm)) = (LogWarn, snd (releasePort p pm))"
    by (simp add: releasePort_def)
  have d: "startPort pm \<le> p \<and> p \<le> endPort pm \<longrightarrow>
      allocatePort (Some p) (snd (releasePort p pm)) =
        Inr (p, pm\<lparr>allocatedPorts := insert p (allocatedPorts pm)\<rparr>)"
    by (auto simp: allocatePort_Inr releasePort_def insert_absorb)
  from a b c d show ?thesis by blast
qed

theorem releasePort_idempotent_witness:
  "releasePort 3001 \<lparr>startPort = 3000, endPort = 3002, allocatedPorts = {3000, 3001}\<rparr> =
     (LogInfo, \<lparr>startPort = 3000, endPort = 3002, allocatedPorts = {3000}\<rparr>) \<and>
   releasePort 3001 \<lparr>startPort = 3000, endPort = 3002, allocatedPorts = {3000}\<rparr> =
     (LogWarn, \<lparr>startPort = 3000, endPort = 3002, allocatedPorts = {3000}\<rparr>) \<and>
   allocatePort (Some 3001)
       (snd (releasePort 3001 \<lparr>startPort = 3000, endPort = 3002, allocatedPorts = {3000, 3001}\<rparr>)) =
     Inr (3001, \<lparr>startPort = 3000, endPort = 3002, allocatedPorts = {3001, 3000}\<rparr>)"
proof -
  let ?pm = "\<lparr>startPort = 3000, endPort = 3002, allocatedPorts = {3000, 3001}\<rparr>"
  let ?pm1 = "\<lparr>startPort = 3000, endPort = 3002, allocatedPorts = {3000 :: int}\<rparr>"
  have m: "(3001 :: int) \<in> allocatedPorts ?pm" by simp
  have n: "(3001 :: int) \<notin> allocatedPorts ?pm1" by simp
  have r: "startPort ?pm \<le> 3001 \<and> 3001 \<le> endPort ?pm" by simp
  have d: "allocatedPorts ?pm - {3001} = {3000 :: int}" by auto
  from releasePort_idempotent [of 3001 ?pm] m r
  have 1: "releasePort 3001 ?pm = (LogInfo, ?pm\<lparr>allocatedPorts := allocatedPorts ?pm - {3001}\<rparr>)"
    and 3: "allocatePort (Some 3001) (snd (releasePort 3001 ?pm)) =
        Inr (3001, ?pm\<lparr>allocatedPorts := insert 3001 (allocatedPorts ?pm)\<rparr>)"
    by blast+
  from releasePort_idempotent [of 3001 ?pm1] n
  have 2: "releasePort 3001 ?pm1 = (LogWarn, ?pm1)" by blast
  have i: "insert 3001 (allocatedPorts ?pm) = {3001, 3000 :: int}" by auto
  from 1 2 3 d i show ?thesis by simp
qed

text \<open>
  Claim C2. A successful \<^verbatim>\<open>allocatePort\<close> returns a port of the range that was not in
  the allocated set and adds it. Along every sequence of allocations and releases on a
  manager that starts with no port allocated, the ports returned and not released
  since are pairwise different, are exactly the allocated set, all lie in
  \<open>[startPort, endPort]\<close>, and are at most \<open>endPort - startPort + 1\<close>. When the allocated
  set covers the range, the call fails whatever \<^verbatim>\<open>getPort\<close> did.
\<close>

theorem allocatePort_exclusive:
  "(allocatePort got pm = Inr (p, pm') \<longrightarrow>
      startPort pm \<le> p \<and> p \<le> endPort pm \<and> p \<notin> allocatedPorts pm \<and>
      allocatedPorts pm' = insert p (allocatedPorts pm)) \<and>
   (allocatedPorts pm = {} \<and> run_port_ops ops pm = (es, pm2) \<longrightarrow>
      distinct (holding [] es) \<and> set (holding [] es) = allocatedPorts pm2 \<and>
      (\<forall>q \<in> set (holding [] es). startPort pm \<le> q \<and> q \<le> endPort pm) \<and>
      int (length (holding [] es)) \<le> max 0 (endPort pm - startPort pm + 1)) \<and>
   ({startPort pm..endPort pm} \<subseteq> allocatedPorts pm \<longrightarrow>
      allocatePort got pm = Inl NoAvailablePorts)"
proof -
  have a: "allocatePort got pm = Inr (p, pm') \<longrightarrow>
      startPort pm \<le> p \<and> p \<le> endPort pm \<and> p \<notin> allocatedPorts pm \<and>
      allocatedPorts pm' = insert p (allocatedPorts pm)"
    by (simp add: allocatePort_Inr)
  have b: "distinct (holding [] es) \<and> set (holding [] es) = allocatedPorts pm2 \<and>
      (\<forall>q \<in> set (holding [] es). startPort pm \<le> q \<and> q \<le> endPort pm) \<and>
      int (length (holding [] es)) \<le> max 0 (endPort pm - startPort pm + 1)"
    if e: "allocatedPorts pm = {}" and r: "run_port_ops ops pm = (es, pm2)"
  proof -
    from e have "ports_inv [] pm" by (simp add: ports_inv_def)
    from run_port_ops_inv [OF this r]
    have i: "ports_inv (holding [] es) pm2" and s: "startPort pm2 = startPort pm"
      and t: "endPort pm2 = endPort pm" by simp_all
    from i have d: "distinct (holding [] es)" and q: "set (holding [] es) = allocatedPorts pm2"
      and sub: "set (holding [] es) \<subseteq> {startPort pm..endPort pm}"
      using s t by (auto simp: ports_inv_def)
    from d have "length (holding [] es) = card (set (holding [] es))"
      by (simp add: distinct_card)
    also from sub have "\<dots> \<le> card {startPort pm..endPort pm}"
      by (intro card_mono) simp_all
    finally have "length (holding [] es) \<le> nat (endPort pm - startPort pm + 1)" by simp
    then have l: "int (length (holding [] es)) \<le> max 0 (endPort pm - startPort pm + 1)" by linarith
    from d q sub l show ?thesis by auto
  qed
  have c: "{startPort pm..endPort pm} \<subseteq> allocatedPorts pm \<longrightarrow>
      allocatePort got pm = Inl NoAvailablePorts"
    by (simp add: allocatePort_exhausted)
  from a b c show ?thesis by blast
qed

theorem allocatePort_exclusive_witness:
  "run_port_ops
       [Allocate (Some 3000), Allocate (Some 3000), Release 3000, Allocate (Some 3000),
        Allocate None, Allocate (Some 3001), Allocate (Some 2999), Allocate (Some 3002)]
       \<lparr>startPort = 3000, endPort = 3002, allocatedPorts = {}\<rparr> =
     ([Allocated 3000, AllocationFailed, Released 3000, Allocated 3000, AllocationFailed,
       Allocated 3001, AllocationFailed, Allocated 3002],
      \<lparr>startPort = 3000, endPort = 3002, allocatedPorts = {3002, 3001, 3000}\<rparr>) \<and>
   distinct (holding []
      [Allocated 3000, AllocationFailed, Released 3000, Allocated 3000, AllocationFailed,
       Allocated 3001, AllocationFailed, Allocated 3002]) \<and>
   set (holding []
      [Allocated 3000, AllocationFailed, Released 3000, Allocated 3000, AllocationFailed,
       Allocated 3001, AllocationFailed, Allocated 3002]) = {3002, 3001, 3000} \<and>
   allocatePort (Some 3001) \<lparr>startPort = 3000, endPort = 3002, allocatedPorts = {3002, 3001, 3000}\<rparr> =
     Inl NoAvailablePorts"
proof -
  let ?pm = "\<lparr>startPort = 3000, endPort = 3002, allocatedPorts = {}\<rparr>"
  let ?ops = "[Allocate (Some 3000), Allocate (Some 3000), Release 3000, Allocate (Some 3000),
        Allocate None, Allocate (Some 3001), Allocate (Some 2999), Allocate (Some 3002)]"
  let ?es = "[Allocated 3000, AllocationFailed, Released 3000, Allocated 3000, AllocationFailed,
       Allocated 3001, AllocationFailed, Allocated 3002]"
  let ?pm2 = "\<lparr>startPort = 3000, endPort = 3002, allocatedPorts = {3002, 3001, 3000}\<rparr>"
  have e: "allocatedPorts ?pm = {}" by simp
  have r: "run_port_ops ?ops ?pm = (?es, ?pm2)"
    by (simp add: port_step_def allocatePort_def allocatePort_try_def releasePort_def)
  have f: "{startPort ?pm2..endPort ?pm2} \<subseteq> allocatedPorts ?pm2" by auto
  from allocatePort_exclusive [of "Some 3001" ?pm2 0 ?pm2 ?ops ?es ?pm2] f
  have 1: "allocatePort (Some 3001) ?pm2 = Inl NoAvailablePorts" by blast
  from allocatePort_exclusive [of None ?pm 0 ?pm ?ops ?es ?pm2] e r
  have 2: "distinct (holding [] ?es)" and 3: "set (holding [] ?es) = allocatedPorts ?pm2"
    by blast+
  from r 1 2 3 show ?thesis by simp
qed

section \<open>Properties of the presentation manager\<close>

text \<open>The loop of \<^verbatim>\<open>waitForServerReady\<close> succeeds when one of its attempts does.\<close>

lemma wait_loop_iff: "wait_loop ok i n \<longleftrightarrow> (\<exists>j<n. ok (i + j))"
proof (induction n arbitrary: i)
  case 0
  then show ?case by simp
next
  case (Suc n)
  show ?case
  proof (cases "ok i")
    case True
    then show ?thesis by auto
  next
    case False
    have "(\<exists>j<n. ok (Suc i + j)) \<longleftrightarrow> (\<exists>j<Suc n. ok (i + j))"
    proof
      assume "\<exists>j<n. ok (Suc i + j)"
      then obtain j where "j < n" "ok (Suc i + j)" by blast
      then have "Suc j < Suc n" "ok (i + Suc j)" by simp_all
      then show "\<exists>j<Suc n. ok (i + j)" by blast
    next
      assume "\<exists>j<Suc n. ok (i + j)"
      then obtain j where j: "j < Suc n" "ok (i + j)" by blast
      with False have "j \<noteq> 0" by (cases j) auto
      then obtain k where "j = Suc k" by (cases j) auto
      with j show "\<exists>j<n. ok (Suc i + j)" by auto
    qed
    with False Suc.IH [of "Suc i"] show ?thesis by simp
  qed
qed

text \<open>The first request of a fresh service, with nothing failing, gives \<open>demo_world\<close>.\<close>

lemma calm_ready: "waitForServerReady (fetchOk calm_env) p = None"
  by (auto simp: waitForServerReady_def wait_loop_iff calm_env_def intro: exI [of _ 0])

lemma first_run:
  "createPresentation createDefaultConfig calm_env demo_request initial_world =
     (Inr (make_response createDefaultConfig demo_instance), demo_world)"
proof -
  have ready: "waitForServerReady (\<lambda>_. True) p = None" for p
    using calm_ready [of p] by (simp add: calm_env_def)
  show ?thesis
    by (simp add: createPresentation_def createDefaultConfig_def initial_world_def Let_def
        createProjectWithoutDeps_def generateProjectId_def join_def calm_env_def
        scaffold_steps_def truthy_def demo_request_def apply_step_def write_in_def
        empty_dir_def allocatePort_def allocatePort_try_def startSlidevProcess_def
        demo_world_def demo_instance_def ready)
qed

lemma terminate_live:
  assumes "h < length ps" and "\<not> exited (ps ! h)"
  shows "is_killed h (terminate h ps) \<and>
         (\<not> killed (ps ! h) \<longrightarrow> signals (terminate h ps ! h) = signals (ps ! h) @ [SIGTERM])"
  using assms by (auto simp: terminate_def is_killed_def kill_def Let_def)

text \<open>
  Claim C8. When the map holds at least \<^verbatim>\<open>maxConcurrentPresentations\<close> instances,
  \<^verbatim>\<open>createPresentation\<close> throws its capacity error and returns the state it was given:
  the same map, port set, file system and processes.
\<close>

theorem createPresentation_at_capacity:
  assumes "int (length (instances w)) \<ge> maxConcurrentPresentations cfg"
  shows "createPresentation cfg env req w = (Inl MaxConcurrentReached, w)"
  using assms by (simp add: createPresentation_def)

theorem createPresentation_at_capacity_witness:
  "createPresentation (createDefaultConfig\<lparr>maxConcurrentPresentations := 1\<rparr>) calm_env demo_request demo_world =
     (Inl MaxConcurrentReached, demo_world)"
proof -
  have "int (length (instances demo_world)) \<ge>
      maxConcurrentPresentations (createDefaultConfig\<lparr>maxConcurrentPresentations := 1\<rparr>)"
    by (simp add: demo_world_def)
  then show ?thesis by (rule createPresentation_at_capacity)
qed

text \<open>
  Claim C10. When \<^verbatim>\<open>fs.remove\<close> throws for the directory of a registered instance,
  \<^verbatim>\<open>deletePresentation\<close> throws that error and the instance stays in the map; its port
  is no longer allocated, and its process, if it had not exited, carries the flag
  \<^verbatim>\<open>killed\<close> (it received SIGTERM now unless it was flagged before).
\<close>

theorem deletePresentation_not_atomic:
  assumes "getPresentation i w = Some inst" and "throws (projectPath inst) = Some e"
  shows "deletePresentation throws i w =
           (Inl e, w\<lparr>processes := terminate (server inst) (processes w),
                     portManager := snd (releasePort (port inst) (portManager w))\<rparr>) \<and>
         getPresentation i (snd (deletePresentation throws i w)) = Some inst \<and>
         port inst \<notin> allocatedPorts (portManager (snd (deletePresentation throws i w))) \<and>
         fs (snd (deletePresentation throws i w)) = fs w \<and>
         (server inst < length (processes w) \<and> \<not> exited (processes w ! server inst) \<longrightarrow>
            is_killed (server inst) (processes (snd (deletePresentation throws i w)))) \<and>
         (server inst < length (processes w) \<and> \<not> exited (processes w ! server inst) \<and>
          \<not> killed (processes w ! server inst) \<longrightarrow>
            signals (processes (snd (deletePresentation throws i w)) ! server inst) =
              signals (processes w ! server inst) @ [SIGTERM])"
proof -
  let ?w1 = "w\<lparr>processes := terminate (server inst) (processes w),
               portManager := snd (releasePort (port inst) (portManager w))\<rparr>"
  from assms have d: "deletePresentation throws i w = (Inl e, ?w1)"
    by (simp add: deletePresentation_def getPresentation_def cleanupProject_def fs_remove_def Let_def)
  have g: "getPresentation i ?w1 = Some inst"
    using assms(1) by (simp add: getPresentation_def)
  have p: "port inst \<notin> allocatedPorts (portManager ?w1)"
    by (simp add: releasePort_allocated)
  from d g p terminate_live [of "server inst" "processes w"] show ?thesis by simp
qed

theorem deletePresentation_not_atomic_witness:
  "deletePresentation (\<lambda>_. Some (FsError ''EBUSY'')) ''slidev-V1StGXR8_Z5j'' demo_world =
     (Inl (FsError ''EBUSY''),
      demo_world\<lparr>processes := [\<lparr>exited = False, killed = True, signals = [SIGTERM]\<rparr>],
                 portManager := \<lparr>startPort = 3002, endPort = 3100, allocatedPorts = {}\<rparr>\<rparr>) \<and>
   getPresentation ''slidev-V1StGXR8_Z5j''
       (snd (deletePresentation (\<lambda>_. Some (FsError ''EBUSY'')) ''slidev-V1StGXR8_Z5j'' demo_world)) =
     Some demo_instance \<and>
   port demo_instance \<notin> allocatedPorts (portManager
       (snd (deletePresentation (\<lambda>_. Some (FsError ''EBUSY'')) ''slidev-V1StGXR8_Z5j'' demo_world)))"
proof -
  let ?throws = "\<lambda>_ :: string. Some (FsError ''EBUSY'')"
  have g: "getPresentation ''slidev-V1StGXR8_Z5j'' demo_world = Some demo_instance"
    by (simp add: getPresentation_def demo_world_def)
  have t: "?throws (projectPath demo_instance) = Some (FsError ''EBUSY'')" by simp
  have k: "terminate (server demo_instance) (processes demo_world) =
      [\<lparr>exited = False, killed = True, signals = [SIGTERM]\<rparr>]"
    by (simp add: terminate_def is_killed_def kill_def demo_world_def demo_instance_def
        fresh_process_def Let_def)
  have r: "snd (releasePort (port demo_instance) (portManager demo_world)) =
      \<lparr>startPort = 3002, endPort = 3100, allocatedPorts = {}\<rparr>"
    by (simp add: releasePort_def demo_world_def demo_instance_def)
  note T = deletePresentation_not_atomic [OF g t]
  from T have "deletePresentation ?throws ''slidev-V1StGXR8_Z5j'' demo_world =
      (Inl (FsError ''EBUSY''),
       demo_world\<lparr>processes := terminate (server demo_instance) (processes demo_world),
                  portManager := snd (releasePort (port demo_instance) (portManager demo_world))\<rparr>)"
    by (rule conjunct1)
  then have 1: "deletePresentation ?throws ''slidev-V1StGXR8_Z5j'' demo_world =
      (Inl (FsError ''EBUSY''),
       demo_world\<lparr>processes := [\<lparr>exited = False, killed = True, signals = [SIGTERM]\<rparr>],
                  portManager := \<lparr>startPort = 3002, endPort = 3100, allocatedPorts = {}\<rparr>\<rparr>)"
    unfolding k r .
  from T have 2: "getPresentation ''slidev-V1StGXR8_Z5j''
       (snd (deletePresentation ?throws ''slidev-V1StGXR8_Z5j'' demo_world)) = Some demo_instance"
    by (rule conjunct1 [OF conjunct2])
  from T have 3: "port demo_instance \<notin> allocatedPorts (portManager
       (snd (deletePresentation ?throws ''slidev-V1StGXR8_Z5j'' demo_world)))"
    by (rule conjunct1 [OF conjunct2 [OF conjunct2]])
  from 1 2 3 show ?thesis by (intro conjI)
qed

section \<open>Properties of the routes\<close>

lemma map_of_update_same: "map_of (AList.update k v al) k = Some v"
  by (simp add: update_conv')

lemma map_of_update_other: "j \<noteq> k \<Longrightarrow> map_of (AList.update k v al) j = map_of al j"
  by (simp add: update_conv')

text \<open>
  An id made by \<^verbatim>\<open>generateProjectId\<close> passes \<^verbatim>\<open>presentationIdSchema\<close>: nanoid returns
  twelve characters of the alphabet \<^verbatim>\<open>A-Za-z0-9_-\<close>.
\<close>

lemma generateProjectId_valid:
  "length (nanoid env) = 12 \<Longrightarrow> list_all theme_char (nanoid env) \<Longrightarrow>
     presentationIdSchema (generateProjectId env)"
  by (simp add: presentationIdSchema_def generateProjectId_def)

text \<open>
  Claim C5. For a registered id (it has the form that \<^verbatim>\<open>generateProjectId\<close> gives, as
  \<open>registered_id_valid\<close> shows for every run from an empty map) and a
  \<^verbatim>\<open>ttl\<close> between 60000 and 86400000, the extend route answers 200 and sets \<^verbatim>\<open>expiresAt\<close> to
  \<open>now + ttl\<close>, which is later than the old value whenever \<open>now + ttl\<close> is; every other
  field of the instance (\<^verbatim>\<open>createdAt\<close> among them), every other instance, the ports, the
  file system and the processes stay as they were. A \<^verbatim>\<open>ttl\<close> below 60000 or above 86400000
  is answered 400 \<^verbatim>\<open>VALIDATION_ERROR\<close> with the state unchanged.
\<close>

theorem extend_updates_expiry:
  assumes "presentationIdSchema i" and "getPresentation i w = Some inst"
  shows "(60000 \<le> t \<and> t \<le> 86400000 \<longrightarrow>
            fst (extendPresentation now i (Some t) w) = HttpExtended (inst_id inst) (now + t) \<and>
            getPresentation i (snd (extendPresentation now i (Some t) w)) =
              Some (inst\<lparr>expiresAt := now + t\<rparr>) \<and>
            (expiresAt inst < now + t \<longrightarrow>
               (\<exists>inst'. getPresentation i (snd (extendPresentation now i (Some t) w)) = Some inst' \<and>
                  expiresAt inst < expiresAt inst' \<and> createdAt inst' = createdAt inst)) \<and>
            (\<forall>j. j \<noteq> i \<longrightarrow> getPresentation j (snd (extendPresentation now i (Some t) w)) =
               getPresentation j w) \<and>
            portManager (snd (extendPresentation now i (Some t) w)) = portManager w \<and>
            fs (snd (extendPresentation now i (Some t) w)) = fs w \<and>
            processes (snd (extendPresentation now i (Some t) w)) = processes w) \<and>
         (t < 60000 \<or> t > 86400000 \<longrightarrow>
            extendPresentation now i (Some t) w = (HttpError 400 ''VALIDATION_ERROR'', w))"
proof -
  have bad: "extendPresentation now i (Some t) w = (HttpError 400 ''VALIDATION_ERROR'', w)"
    if "t < 60000 \<or> t > 86400000"
    using that by (auto simp: extendPresentation_def extendSchema_def ttl_rule_def)
  have good: "extendPresentation now i (Some t) w =
      (HttpExtended (inst_id inst) (now + t),
       w\<lparr>instances := AList.update i (inst\<lparr>expiresAt := now + t\<rparr>) (instances w)\<rparr>)"
    if "60000 \<le> t \<and> t \<le> 86400000"
    using that assms by (simp add: extendPresentation_def extendSchema_def ttl_rule_def)
  show ?thesis
  proof (intro conjI impI)
    assume r: "60000 \<le> t \<and> t \<le> 86400000"
    note g = good [OF r]
    show "fst (extendPresentation now i (Some t) w) = HttpExtended (inst_id inst) (now + t)"
      by (simp add: g)
    show s: "getPresentation i (snd (extendPresentation now i (Some t) w)) =
        Some (inst\<lparr>expiresAt := now + t\<rparr>)"
      by (simp add: g getPresentation_def map_of_update_same)
    show "\<forall>j. j \<noteq> i \<longrightarrow> getPresentation j (snd (extendPresentation now i (Some t) w)) =
        getPresentation j w"
      by (simp add: g getPresentation_def map_of_update_other)
    show "portManager (snd (extendPresentation now i (Some t) w)) = portManager w"
      by (simp add: g)
    show "fs (snd (extendPresentation now i (Some t) w)) = fs w" by (simp add: g)
    show "processes (snd (extendPresentation now i (Some t) w)) = processes w" by (simp add: g)
    assume "expiresAt inst < now + t"
    with s show "\<exists>inst'. getPresentation i (snd (extendPresentation now i (Some t) w)) = Some inst' \<and>
        expiresAt inst < expiresAt inst' \<and> createdAt inst' = createdAt inst"
      by simp
  next
    assume "t < 60000 \<or> t > 86400000"
    then show "extendPresentation now i (Some t) w = (HttpError 400 ''VALIDATION_ERROR'', w)"
      by (rule bad)
  qed
qed

theorem extend_updates_expiry_witness:
  "extendPresentation 5000 ''slidev-V1StGXR8_Z5j'' (Some 59999) demo_world =
     (HttpError 400 ''VALIDATION_ERROR'', demo_world) \<and>
   fst (extendPresentation 5000 ''slidev-V1StGXR8_Z5j'' (Some 120000) demo_world) =
     HttpExtended ''slidev-V1StGXR8_Z5j'' 125000 \<and>
   getPresentation ''slidev-V1StGXR8_Z5j''
       (snd (extendPresentation 5000 ''slidev-V1StGXR8_Z5j'' (Some 120000) demo_world)) =
     Some (demo_instance\<lparr>expiresAt := 125000\<rparr>)"
proof -
  have v: "presentationIdSchema ''slidev-V1StGXR8_Z5j''"
    by (simp add: presentationIdSchema_def theme_char_def)
  have g: "getPresentation ''slidev-V1StGXR8_Z5j'' demo_world = Some demo_instance"
    by (simp add: getPresentation_def demo_world_def)
  have i: "inst_id demo_instance = ''slidev-V1StGXR8_Z5j''" by (simp add: demo_instance_def)
  from extend_updates_expiry [OF v g, of 59999 5000]
  have 1: "extendPresentation 5000 ''slidev-V1StGXR8_Z5j'' (Some 59999) demo_world =
      (HttpError 400 ''VALIDATION_ERROR'', demo_world)" by simp
  from extend_updates_expiry [OF v g, of 120000 5000]
  have 2: "fst (extendPresentation 5000 ''slidev-V1StGXR8_Z5j'' (Some 120000) demo_world) =
      HttpExtended (inst_id demo_instance) (5000 + 120000)"
    and 3: "getPresentation ''slidev-V1StGXR8_Z5j''
       (snd (extendPresentation 5000 ''slidev-V1StGXR8_Z5j'' (Some 120000) demo_world)) =
      Some (demo_instance\<lparr>expiresAt := 5000 + 120000\<rparr>)"
    by simp_all
  from 1 2 3 i show ?thesis by simp
qed

text \<open>Trimming never makes a string longer.\<close>

lemma length_trim: "length (trim s) \<le> length s"
proof -
  have "length (trim s) \<le> length (dropWhile is_space s)"
    unfolding trim_def using length_dropWhile_le [of is_space "rev (dropWhile is_space s)"] by simp
  also have "\<dots> \<le> length s" by (rule length_dropWhile_le)
  finally show ?thesis .
qed

text \<open>
  Whatever else the body holds, five characters of content are answered with status 400
  and the state of before: by \<^verbatim>\<open>validateBody\<close> with \<^verbatim>\<open>VALIDATION_ERROR\<close> when another field
  breaks the schema, by \<^verbatim>\<open>validatePresentationRequest\<close> otherwise.
\<close>

lemma short_content_answered_400:
  assumes "length (content body) = 5"
  shows "statusCode (fst (postPresentations cfg sanitize unhealthy env body w)) = 400 \<and>
         snd (postPresentations cfg sanitize unhealthy env body w) = w \<and>
         (generatePPTSchema body \<noteq> [] \<longrightarrow>
            fst (postPresentations cfg sanitize unhealthy env body w) =
              HttpError 400 ''VALIDATION_ERROR'')"
proof -
  from assms have n: "content body \<noteq> []" by auto
  from assms length_trim [of "content body"] have s: "length (trim (content body)) < 10" by simp
  show ?thesis
  proof (cases "generatePPTSchema body = []")
    case True
    with n s show ?thesis by (simp add: postPresentations_def statusCode_def)
  next
    case False
    then show ?thesis by (simp add: postPresentations_def statusCode_def)
  qed
qed

lemma schema_checked_first:
  "length (content (hello_body\<lparr>ttl := Some 5\<rparr>)) = 5 \<and>
   postPresentations createDefaultConfig (\<lambda>s. s) False calm_env (hello_body\<lparr>ttl := Some 5\<rparr>)
       initial_world =
     (HttpError 400 ''VALIDATION_ERROR'', initial_world)"
  by (simp add: postPresentations_def generatePPTSchema_def hello_body_def string_max_def
      optional_def theme_rule_def theme_char_def ttl_rule_def)

text \<open>
  Claim C3. A request to \<^verbatim>\<open>POST /presentations\<close> whose \<^verbatim>\<open>content\<close> has five characters, in a
  body that passes the body schema, is answered with status 400 and the code
  \<^verbatim>\<open>CONTENT_TOO_SHORT\<close>, and the state is the one before the request: no port is
  allocated, no process is spawned, no directory is made. This holds for every
  configuration, health verdict and environment.
\<close>

theorem short_content_rejected:
  assumes "length (content body) = 5" and "generatePPTSchema body = []"
  shows "postPresentations cfg sanitize unhealthy env body w =
           (HttpError 400 ''CONTENT_TOO_SHORT'', w) \<and>
         statusCode (fst (postPresentations cfg sanitize unhealthy env body w)) = 400 \<and>
         portManager (snd (postPresentations cfg sanitize unhealthy env body w)) = portManager w \<and>
         processes (snd (postPresentations cfg sanitize unhealthy env body w)) = processes w \<and>
         fs (snd (postPresentations cfg sanitize unhealthy env body w)) = fs w \<and>
         instances (snd (postPresentations cfg sanitize unhealthy env body w)) = instances w"
proof -
  from assms(1) have n: "content body \<noteq> []" by auto
  from assms(1) length_trim [of "content body"] have s: "length (trim (content body)) < 10"
    by simp
  from n s assms(2)
  have "postPresentations cfg sanitize unhealthy env body w =
      (HttpError 400 ''CONTENT_TOO_SHORT'', w)"
    by (simp add: postPresentations_def)
  then show ?thesis by (simp add: statusCode_def)
qed

theorem short_content_rejected_witness:
  "postPresentations createDefaultConfig (\<lambda>s. s) False calm_env hello_body initial_world =
     (HttpError 400 ''CONTENT_TOO_SHORT'', initial_world)"
proof -
  have l: "length (content hello_body) = 5" by (simp add: hello_body_def)
  have v: "generatePPTSchema hello_body = []"
    by (simp add: generatePPTSchema_def hello_body_def string_max_def optional_def theme_rule_def
        theme_char_def ttl_rule_def)
  from short_content_rejected [OF l v, of createDefaultConfig "\<lambda>s. s" False calm_env initial_world]
  show ?thesis by (rule conjunct1)
qed

section \<open>Deleting and sweeping\<close>

text \<open>\<^verbatim>\<open>deletePresentation\<close> by cases: unknown id, failing removal, successful removal.\<close>

lemma deletePresentation_cases:
  "deletePresentation throws i w =
     (case map_of (instances w) i of
        None \<Rightarrow> (Inr False, w)
      | Some inst \<Rightarrow>
          (case throws (projectPath inst) of
             Some e \<Rightarrow>
               (Inl e, w\<lparr>processes := terminate (server inst) (processes w),
                         portManager := snd (releasePort (port inst) (portManager w))\<rparr>)
           | None \<Rightarrow>
               (Inr True,
                w\<lparr>processes := terminate (server inst) (processes w),
                  portManager := snd (releasePort (port inst) (portManager w)),
                  fs := (fs w)(projectPath inst := None),
                  instances := AList.delete i (instances w)\<rparr>)))"
  by (simp add: deletePresentation_def cleanupProject_def fs_remove_def Let_def
      split: option.splits)

lemma distinct_keys_unique:
  "distinct (map fst al) \<Longrightarrow> map_of al k = Some v \<Longrightarrow> (k, v') \<in> set al \<Longrightarrow> v' = v"
  by (metis map_of_is_SomeI option.inject)

lemma deletePresentation_instances:
  assumes "distinct (map fst (instances w))"
  shows "instances (snd (deletePresentation throws i w)) =
           filter (\<lambda>kv. \<not> (fst kv = i \<and> throws (projectPath (snd kv)) = None)) (instances w)"
proof (cases "map_of (instances w) i")
  case None
  then have "\<forall>kv \<in> set (instances w). fst kv \<noteq> i"
    by (auto simp: map_of_eq_None_iff)
  then have "filter (\<lambda>kv. \<not> (fst kv = i \<and> throws (projectPath (snd kv)) = None)) (instances w) =
      instances w"
    by (auto simp: filter_id_conv)
  with None show ?thesis by (simp add: deletePresentation_cases)
next
  case (Some inst)
  have u: "snd kv = inst" if "kv \<in> set (instances w)" "fst kv = i" for kv
    using distinct_keys_unique [OF assms Some, of "snd kv"] that by (cases kv) auto
  show ?thesis
  proof (cases "throws (projectPath inst)")
    case None
    have "AList.delete i (instances w) =
        filter (\<lambda>kv. \<not> (fst kv = i \<and> throws (projectPath (snd kv)) = None)) (instances w)"
      unfolding AList.delete_eq using u None by (intro filter_cong) (auto simp: split_def)
    with Some None show ?thesis by (simp add: deletePresentation_cases)
  next
    case (Some e)
    have "filter (\<lambda>kv. \<not> (fst kv = i \<and> throws (projectPath (snd kv)) = None)) (instances w) =
        instances w"
      using u Some by (auto simp: filter_id_conv)
    with Some \<open>map_of (instances w) i = Some inst\<close> show ?thesis
      by (simp add: deletePresentation_cases)
  qed
qed








lemma deletePresentation_distinct:
  assumes "distinct (map fst (instances w))"
  shows "distinct (map fst (instances (snd (deletePresentation throws i w))))"
  unfolding deletePresentation_instances [OF assms] using assms by (rule distinct_map_filter)

lemma delete_each_distinct:
  "distinct (map fst (instances w)) \<Longrightarrow>
     distinct (map fst (instances (snd (delete_each throws ids n w))))"
proof (induction ids arbitrary: n w)
  case Nil
  then show ?case by simp
next
  case (Cons i ids)
  obtain r w1 where d: "deletePresentation throws i w = (r, w1)"
    by (cases "deletePresentation throws i w")
  from deletePresentation_distinct [OF Cons.prems, of throws i] d
  have "distinct (map fst (instances w1))" by simp
  from Cons.IH [OF this] d show ?case by (cases r) simp_all
qed
















text \<open>
  A state in which two registered instances hold the same port number does arise: a
  sweep whose removal fails leaves the first instance registered with its port
  released, and the next creation is given that port. The following sweep, with no
  failure, removes the first instance and calls \<^verbatim>\<open>releasePort\<close> with its port number,
  which frees the port of the second, live instance. The statement on ports of the
  theorem above does not speak about such a state.
\<close>

lemma stale_entry_releases_live_port:
  "allocatedPorts (portManager
      (exec createDefaultConfig
         [Create calm_env demo_request,
          Cleanup 61000 (\<lambda>_. Some (FsError ''EBUSY'')),
          Create (calm_env\<lparr>nanoid := ''abcdefghijkl'', dateNow := 61500, newDate := 63000\<rparr>) demo_request]
         initial_world)) = {3002} \<and>
   map fst (instances
      (exec createDefaultConfig
         [Create calm_env demo_request,
          Cleanup 61000 (\<lambda>_. Some (FsError ''EBUSY'')),
          Create (calm_env\<lparr>nanoid := ''abcdefghijkl'', dateNow := 61500, newDate := 63000\<rparr>) demo_request,
          Cleanup 62000 (\<lambda>_. None)]
         initial_world)) = [''slidev-abcdefghijkl''] \<and>
   allocatedPorts (portManager
      (exec createDefaultConfig
         [Create calm_env demo_request,
          Cleanup 61000 (\<lambda>_. Some (FsError ''EBUSY'')),
          Create (calm_env\<lparr>nanoid := ''abcdefghijkl'', dateNow := 61500, newDate := 63000\<rparr>) demo_request,
          Cleanup 62000 (\<lambda>_. None)]
         initial_world)) = {}"
proof -
  let ?env2 = "calm_env\<lparr>nanoid := ''abcdefghijkl'', dateNow := 61500, newDate := 63000\<rparr>"
  let ?w1 = "demo_world\<lparr>processes := terminate (server demo_instance) (processes demo_world),
            portManager := snd (releasePort (port demo_instance) (portManager demo_world))\<rparr>"
  have ready: "waitForServerReady (\<lambda>_. True) p = None" for p
    using calm_ready [of p] by (simp add: calm_env_def)
  have i: "instances demo_world = [(''slidev-V1StGXR8_Z5j'', demo_instance)]"
    by (simp add: demo_world_def)
  have e: "expiresAt demo_instance \<le> 61000" "expiresAt demo_instance \<le> 62000"
    by (simp_all add: demo_instance_def)
  have c1: "snd (cleanupExpired 61000 (\<lambda>_. Some (FsError ''EBUSY'')) demo_world) = ?w1"
    by (simp add: cleanupExpired_def expiredIds_def i e deletePresentation_cases)
  obtain r w2 where c2: "createPresentation createDefaultConfig ?env2 demo_request ?w1 = (r, w2)"
    by (cases "createPresentation createDefaultConfig ?env2 demo_request ?w1")
  have w2: "instances w2 = [(''slidev-V1StGXR8_Z5j'', demo_instance),
        (''slidev-abcdefghijkl'',
         \<lparr>inst_id = ''slidev-abcdefghijkl'', projectPath = ''/tmp/slidev-api/slidev-abcdefghijkl'',
          server = 1, port = 3002, createdAt = 63000, expiresAt = 121500, status = Ready,
          error = None, request = demo_request\<rparr>)]"
    and p2: "allocatedPorts (portManager w2) = {3002}"
    using c2
    by (auto simp: createPresentation_def createDefaultConfig_def Let_def
        createProjectWithoutDeps_def generateProjectId_def join_def calm_env_def
        scaffold_steps_def truthy_def demo_request_def apply_step_def write_in_def
        empty_dir_def allocatePort_def allocatePort_try_def startSlidevProcess_def
        demo_world_def demo_instance_def ready releasePort_def terminate_def is_killed_def
        kill_def fresh_process_def)
  have x2: "expiredIds 62000 w2 = [''slidev-V1StGXR8_Z5j'']"
    by (simp add: expiredIds_def w2 e)
  have c3: "instances (snd (cleanupExpired 62000 (\<lambda>_. None) w2)) =
        [(''slidev-abcdefghijkl'',
         \<lparr>inst_id = ''slidev-abcdefghijkl'', projectPath = ''/tmp/slidev-api/slidev-abcdefghijkl'',
          server = 1, port = 3002, createdAt = 63000, expiresAt = 121500, status = Ready,
          error = None, request = demo_request\<rparr>)]"
    and p3: "allocatedPorts (portManager (snd (cleanupExpired 62000 (\<lambda>_. None) w2))) = {}"
    by (simp_all add: cleanupExpired_def x2 deletePresentation_cases w2 p2 releasePort_def
        demo_instance_def)
  have x: "exec createDefaultConfig
         [Create calm_env demo_request,
          Cleanup 61000 (\<lambda>_. Some (FsError ''EBUSY'')),
          Create ?env2 demo_request] initial_world = w2"
    by (simp add: exec_def exec_op_def first_run c1 c2)
  have y: "exec createDefaultConfig
         [Create calm_env demo_request,
          Cleanup 61000 (\<lambda>_. Some (FsError ''EBUSY'')),
          Create ?env2 demo_request,
          Cleanup 62000 (\<lambda>_. None)] initial_world = snd (cleanupExpired 62000 (\<lambda>_. None) w2)"
    by (simp add: exec_def exec_op_def first_run c1 c2)
  show ?thesis unfolding x y by (simp add: p2 c3 p3)
qed

section \<open>What a creation registers\<close>

lemma set_update_subset: "set (AList.update k v al) \<subseteq> insert (k, v) (set al)"
  by (induction al) auto

lemma createProject_frame:
  "instances (snd (createProjectWithoutDeps cfg env req w)) = instances w \<and>
   portManager (snd (createProjectWithoutDeps cfg env req w)) = portManager w \<and>
   processes (snd (createProjectWithoutDeps cfg env req w)) = processes w"
  by (simp add: createProjectWithoutDeps_def Let_def split: prod.splits option.splits)

lemma createProject_result:
  "fst (createProjectWithoutDeps cfg env req w) = Inr r \<Longrightarrow>
     r = (generateProjectId env, join (tempDir cfg) (generateProjectId env))"
  by (auto simp: createProjectWithoutDeps_def Let_def split: prod.splits option.splits)

lemma start_failed_frame:
  "instances (snd (start_failed env proc p path e w)) = instances w"
  by (simp add: start_failed_def cleanupProject_def Let_def split: prod.splits option.splits)

lemma start_failed_frame':
  "start_failed env proc p path e w = (e', w') \<Longrightarrow> instances w' = instances w"
  using start_failed_frame [of env proc p path e w] by simp

lemma startSlidevProcess_Inr:
  "startSlidevProcess outcome ps = (Inr h, ps') \<Longrightarrow> outcome = SpawnReady"
  by (auto simp: startSlidevProcess_def split: spawn_outcome.splits if_splits)

text \<open>
  \<^verbatim>\<open>createPresentation\<close> either throws and leaves the map as it was, or returns after the
  process resolved and the readiness loop succeeded, and then the map has one entry
  more or replaced: the new instance, with status \<^verbatim>\<open>ready\<close>.
\<close>

lemma createPresentation_registers:
  "(\<exists>e. fst (createPresentation cfg env req w) = Inl e \<and>
        instances (snd (createPresentation cfg env req w)) = instances w) \<or>
   (\<exists>r inst. fst (createPresentation cfg env req w) = Inr r \<and> status inst = Ready \<and>
        inst_id inst = generateProjectId env \<and>
        spawned env = SpawnReady \<and> wait_loop (fetchOk env) 0 60 \<and>
        instances (snd (createPresentation cfg env req w)) =
          AList.update (generateProjectId env) inst (instances w))"
proof (cases "int (length (instances w)) \<ge> maxConcurrentPresentations cfg")
  case True
  then show ?thesis by (simp add: createPresentation_def)
next
  case cap: False
  obtain r1 w1 where c1: "createProjectWithoutDeps cfg env req w = (r1, w1)"
    by (cases "createProjectWithoutDeps cfg env req w")
  from createProject_frame [of cfg env req w] c1
  have f1: "instances w1 = instances w" by simp
  show ?thesis
  proof (cases r1)
    case (Inl e)
    with cap c1 f1 show ?thesis by (simp add: createPresentation_def)
  next
    case (Inr ip)
    from createProject_result [of cfg env req w ip] c1 Inr
    have ip: "ip = (generateProjectId env, join (tempDir cfg) (generateProjectId env))" by simp
    let ?i = "generateProjectId env" and ?path = "join (tempDir cfg) (generateProjectId env)"
    from c1 Inr ip have c1': "createProjectWithoutDeps cfg env req w = (Inr (?i, ?path), w1)" by simp
    show ?thesis
    proof (cases "allocatePort (gotPort env) (portManager w1)")
      case (Inl e)
      with cap c1' f1 show ?thesis by (simp add: createPresentation_def)
    next
      case (Inr ppm)
      obtain p pm where ppm: "ppm = (p, pm)" by (cases ppm)
      obtain r2 ps where s: "startSlidevProcess (spawned env) (processes w1) = (r2, ps)"
        by (cases "startSlidevProcess (spawned env) (processes w1)")
      show ?thesis
      proof (cases r2)
        case (Inl e)
        with cap c1' f1 Inr ppm s show ?thesis
          by (auto simp: createPresentation_def Let_def split: prod.splits dest: start_failed_frame')
      next
        case r2: (Inr h)
        from startSlidevProcess_Inr s r2 have sr: "spawned env = SpawnReady" by blast
        show ?thesis
        proof (cases "waitForServerReady (fetchOk env) p")
          case (Some e)
          with cap c1' f1 Inr ppm s r2 show ?thesis
            by (auto simp: createPresentation_def Let_def split: prod.splits dest: start_failed_frame')
        next
          case None
          then have wl: "wait_loop (fetchOk env) 0 60"
            by (simp add: waitForServerReady_def split: if_splits)
          let ?inst = "\<lparr>inst_id = ?i, projectPath = ?path, server = h, port = p,
              createdAt = newDate env,
              expiresAt = dateNow env +
                (case ttl req of None \<Rightarrow> defaultTTL cfg
                 | Some n \<Rightarrow> if n = 0 then defaultTTL cfg else n),
              status = Ready, error = None, request = req\<rparr>"
          from cap c1' f1 Inr ppm s r2 None
          have "createPresentation cfg env req w =
              (Inr (make_response cfg ?inst),
               w1\<lparr>portManager := pm, processes := ps,
                  instances := AList.update ?i ?inst (instances w)\<rparr>)"
            by (simp add: createPresentation_def Let_def)
          with sr wl show ?thesis
            by (intro disjI2 exI [of _ "make_response cfg ?inst"] exI [of _ ?inst]) simp
        qed
      qed
    qed
  qed
qed

lemma deletePresentation_subset:
  "set (instances (snd (deletePresentation throws i w))) \<subseteq> set (instances w)"
  by (auto simp: deletePresentation_cases AList.delete_eq split: option.splits)

lemma delete_each_subset:
  "set (instances (snd (delete_each throws ids n w))) \<subseteq> set (instances w)"
proof (induction ids arbitrary: n w)
  case Nil
  then show ?case by simp
next
  case (Cons i ids)
  obtain r w1 where d: "deletePresentation throws i w = (r, w1)"
    by (cases "deletePresentation throws i w")
  from deletePresentation_subset [of throws i w] d
  have "set (instances w1) \<subseteq> set (instances w)" by simp
  with Cons.IH [of _ w1] d show ?case by (cases r) fastforce+
qed

lemma exec_op_ready:
  assumes "\<forall>kv \<in> set (instances w). status (snd kv) = Ready"
  shows "\<forall>kv \<in> set (instances (exec_op cfg op w)). status (snd kv) = Ready"
proof (cases op)
  case (Create env req)
  from createPresentation_registers [of cfg env req w]
  show ?thesis
  proof
    assume "\<exists>e. fst (createPresentation cfg env req w) = Inl e \<and>
        instances (snd (createPresentation cfg env req w)) = instances w"
    with assms Create show ?thesis by (auto simp: exec_op_def)
  next
    assume "\<exists>r inst. fst (createPresentation cfg env req w) = Inr r \<and> status inst = Ready \<and>
        inst_id inst = generateProjectId env \<and>
        spawned env = SpawnReady \<and> wait_loop (fetchOk env) 0 60 \<and>
        instances (snd (createPresentation cfg env req w)) =
          AList.update (generateProjectId env) inst (instances w)"
    then obtain inst where i: "status inst = Ready"
      "instances (snd (createPresentation cfg env req w)) =
          AList.update (generateProjectId env) inst (instances w)" by blast
    from set_update_subset [of "generateProjectId env" inst "instances w"] i assms
    have "\<forall>kv \<in> set (instances (snd (createPresentation cfg env req w))). status (snd kv) = Ready"
      by auto
    with Create show ?thesis by (simp add: exec_op_def)
  qed
next
  case (Delete throws i)
  with assms deletePresentation_subset [of throws i w] show ?thesis
    by (auto simp: exec_op_def)
next
  case (Cleanup now throws)
  with assms delete_each_subset [of throws "expiredIds now w" 0 w] show ?thesis
    by (auto simp: exec_op_def cleanupExpired_def)
next
  case (Extend now i t)
  show ?thesis
  proof (cases "instances (snd (extendPresentation now i t w)) = instances w")
    case True
    with assms Extend show ?thesis by (simp add: exec_op_def)
  next
    case False
    then obtain inst n where g: "map_of (instances w) i = Some inst"
      and u: "instances (snd (extendPresentation now i t w)) =
        AList.update i (inst\<lparr>expiresAt := now + n\<rparr>) (instances w)"
      by (auto simp: extendPresentation_def getPresentation_def split: if_splits option.splits)
    from g have "(i, inst) \<in> set (instances w)" by (rule map_of_SomeD)
    with assms have "status inst = Ready" by auto
    with set_update_subset [of i "inst\<lparr>expiresAt := now + n\<rparr>" "instances w"] u assms
    have "\<forall>kv \<in> set (instances (snd (extendPresentation now i t w))). status (snd kv) = Ready"
      by auto
    with Extend show ?thesis by (simp add: exec_op_def)
  qed
next
  case (Shutdown throws)
  with assms delete_each_subset [of throws "map fst (instances w)" 0 w] show ?thesis
    by (auto simp: exec_op_def shutdown_def Let_def)
qed

lemma exec_ready:
  "\<forall>kv \<in> set (instances w). status (snd kv) = Ready \<Longrightarrow>
     \<forall>kv \<in> set (instances (exec cfg ops w)). status (snd kv) = Ready"
proof (induction ops arbitrary: w)
  case Nil
  then show ?case by (simp add: exec_def)
next
  case (Cons op ops)
  from exec_op_ready [OF Cons.prems, of cfg op]
  have "\<forall>kv \<in> set (instances (exec cfg ops (exec_op cfg op w))). status (snd kv) = Ready"
    by (rule Cons.IH)
  then show ?case by (simp add: exec_def)
qed

text \<open>
  Claim C9. In every state that a run of the service reaches from an empty map, every
  instance that \<^verbatim>\<open>getAllPresentations\<close> lists or \<^verbatim>\<open>getPresentation\<close> returns has status
  \<^verbatim>\<open>ready\<close>, so none is \<^verbatim>\<open>generating\<close>. A \<^verbatim>\<open>createPresentation\<close> that throws leaves the map,
  and so both observers, as they were. A call that changes the map had its process
  started and its readiness wait succeed, and the entry it wrote is \<^verbatim>\<open>ready\<close>.
\<close>

theorem registry_only_ready:
  "(instances w0 = [] \<longrightarrow>
      (\<forall>inst \<in> set (getAllPresentations (exec cfg ops w0)). status inst = Ready) \<and>
      (\<forall>i inst. getPresentation i (exec cfg ops w0) = Some inst \<longrightarrow> status inst = Ready)) \<and>
   (\<forall>e. fst (createPresentation cfg env req w) = Inl e \<longrightarrow>
      instances (snd (createPresentation cfg env req w)) = instances w \<and>
      getAllPresentations (snd (createPresentation cfg env req w)) = getAllPresentations w \<and>
      (\<forall>i. getPresentation i (snd (createPresentation cfg env req w)) = getPresentation i w)) \<and>
   (instances (snd (createPresentation cfg env req w)) \<noteq> instances w \<longrightarrow>
      spawned env = SpawnReady \<and> wait_loop (fetchOk env) 0 60 \<and>
      (\<exists>inst. getPresentation (generateProjectId env) (snd (createPresentation cfg env req w)) =
          Some inst \<and> status inst = Ready))"
proof -
  have a: "(\<forall>inst \<in> set (getAllPresentations (exec cfg ops w0)). status inst = Ready) \<and>
      (\<forall>i inst. getPresentation i (exec cfg ops w0) = Some inst \<longrightarrow> status inst = Ready)"
    if "instances w0 = []"
  proof -
    from that have "\<forall>kv \<in> set (instances w0). status (snd kv) = Ready" by simp
    then have r: "\<forall>kv \<in> set (instances (exec cfg ops w0)). status (snd kv) = Ready"
      by (rule exec_ready)
    then have 1: "\<forall>inst \<in> set (getAllPresentations (exec cfg ops w0)). status inst = Ready"
      by (auto simp: getAllPresentations_def)
    have 2: "status inst = Ready" if "getPresentation i (exec cfg ops w0) = Some inst" for i inst
    proof -
      from that have "(i, inst) \<in> set (instances (exec cfg ops w0))"
        by (auto simp: getPresentation_def dest: map_of_SomeD)
      with r show ?thesis by auto
    qed
    from 1 2 show ?thesis by blast
  qed
  note c = createPresentation_registers [of cfg env req w]
  have b: "instances (snd (createPresentation cfg env req w)) = instances w \<and>
      getAllPresentations (snd (createPresentation cfg env req w)) = getAllPresentations w \<and>
      (\<forall>i. getPresentation i (snd (createPresentation cfg env req w)) = getPresentation i w)"
    if "fst (createPresentation cfg env req w) = Inl e" for e
  proof -
    from c that have "instances (snd (createPresentation cfg env req w)) = instances w" by auto
    then show ?thesis by (simp add: getAllPresentations_def getPresentation_def)
  qed
  have d: "spawned env = SpawnReady \<and> wait_loop (fetchOk env) 0 60 \<and>
      (\<exists>inst. getPresentation (generateProjectId env) (snd (createPresentation cfg env req w)) =
          Some inst \<and> status inst = Ready)"
    if n: "instances (snd (createPresentation cfg env req w)) \<noteq> instances w"
  proof -
    from c n obtain inst where i: "status inst = Ready" "spawned env = SpawnReady"
      "wait_loop (fetchOk env) 0 60"
      "instances (snd (createPresentation cfg env req w)) =
          AList.update (generateProjectId env) inst (instances w)" by blast
    from i(4) have "getPresentation (generateProjectId env) (snd (createPresentation cfg env req w)) =
        Some inst" by (simp add: getPresentation_def map_of_update_same)
    with i show ?thesis by blast
  qed
  from a b d show ?thesis by blast
qed

text \<open>A start that times out, on the fresh service: the call throws the timeout error.\<close>

lemma timeout_run:
  "fst (createPresentation createDefaultConfig (calm_env\<lparr>spawned := SpawnTimeout\<rparr>) demo_request
      initial_world) = Inl StartupTimeout"
  by (simp add: createPresentation_def createDefaultConfig_def initial_world_def Let_def
      createProjectWithoutDeps_def generateProjectId_def join_def calm_env_def
      scaffold_steps_def truthy_def demo_request_def apply_step_def write_in_def
      empty_dir_def allocatePort_def allocatePort_try_def startSlidevProcess_def
      start_failed_def cleanupProject_def fs_remove_def releasePort_def)

theorem registry_only_ready_witness:
  "getAllPresentations (exec createDefaultConfig [Create calm_env demo_request] initial_world) =
     [demo_instance] \<and>
   status demo_instance = Ready \<and>
   fst (createPresentation createDefaultConfig (calm_env\<lparr>spawned := SpawnTimeout\<rparr>) demo_request
      initial_world) = Inl StartupTimeout \<and>
   getPresentation ''slidev-V1StGXR8_Z5j''
     (snd (createPresentation createDefaultConfig (calm_env\<lparr>spawned := SpawnTimeout\<rparr>) demo_request
        initial_world)) = None"
proof -
  let ?env = "calm_env\<lparr>spawned := SpawnTimeout\<rparr>"
  note T = registry_only_ready [of initial_world createDefaultConfig "[Create calm_env demo_request]"
      ?env demo_request initial_world]
  have e: "instances initial_world = []" by (simp add: initial_world_def)
  have x: "exec createDefaultConfig [Create calm_env demo_request] initial_world = demo_world"
    by (simp add: exec_def exec_op_def first_run)
  have 1: "getAllPresentations (exec createDefaultConfig [Create calm_env demo_request] initial_world) =
      [demo_instance]"
    by (simp add: x getAllPresentations_def demo_world_def)
  from T e have "\<forall>inst \<in> set (getAllPresentations
      (exec createDefaultConfig [Create calm_env demo_request] initial_world)). status inst = Ready"
    by blast
  with 1 have 2: "status demo_instance = Ready" by simp
  note 3 = timeout_run
  from T 3 have "\<forall>i. getPresentation i
      (snd (createPresentation createDefaultConfig ?env demo_request initial_world)) =
      getPresentation i initial_world" by blast
  then have 4: "getPresentation ''slidev-V1StGXR8_Z5j''
      (snd (createPresentation createDefaultConfig ?env demo_request initial_world)) = None"
    by (simp add: getPresentation_def e)
  from 1 2 3 4 show ?thesis by (intro conjI)
qed

section \<open>The frontmatter of the slides file\<close>

text \<open>
  The merge is last write wins: a key of \<^verbatim>\<open>config\<close> overrides the same key of
  \<^verbatim>\<open>frontmatter\<close>, which overrides the default; inside one object the last entry of a key
  counts. In project-generator.ts a string value is written between double quotes and
  any other value as \<^verbatim>\<open>JSON.stringify\<close> prints it.
\<close>

lemma foldl_update_lookup:
  "map_of (foldl (\<lambda>acc kv. AList.update (fst kv) (snd kv) acc) obj es) =
     map_of obj ++ map_of (rev es)"
proof (induction es arbitrary: obj)
  case Nil
  then show ?case by simp
next
  case (Cons e es)
  have "map_of (AList.update (fst e) (snd e) obj) ++ map_of (rev es) =
      map_of obj ++ (map_of [e] ++ map_of (rev es))"
    by (cases e) (auto simp: update_conv' map_add_def fun_eq_iff split: option.splits)
  with Cons.IH [of "AList.update (fst e) (snd e) obj"] show ?case by simp
qed

lemma spread_lookup:
  "map_of (spread src obj) =
     (case src of None \<Rightarrow> map_of obj | Some es \<Rightarrow> map_of obj ++ map_of (rev es))"
  by (simp add: spread_def foldl_update_lookup split: option.splits)

lemma merged_frontmatter_lookup:
  "map_of (merged_frontmatter req) =
     (case config req of
        None \<Rightarrow> (case frontmatter req of
                   None \<Rightarrow> map_of (frontmatter_defaults req)
                 | Some fm \<Rightarrow> map_of (frontmatter_defaults req) ++ map_of (rev fm))
      | Some cf \<Rightarrow> (case frontmatter req of
                   None \<Rightarrow> map_of (frontmatter_defaults req) ++ map_of (rev cf)
                 | Some fm \<Rightarrow> map_of (frontmatter_defaults req) ++ map_of (rev fm) ++ map_of (rev cf)))"
  by (simp add: merged_frontmatter_def spread_lookup split: option.splits)

lemma yaml_line_string:
  "yaml_line (k, JStr s) = k @ '': '' @ [CHR 0x22] @ s @ [CHR 0x22]"
  by (simp add: yaml_line_def)

lemma yaml_line_other:
  "(\<forall>s. v \<noteq> JStr s) \<Longrightarrow> yaml_line (k, v) = k @ '': '' @ stringify v"
  by (cases v) (simp_all add: yaml_line_def)

lemma docker_yaml_line_string:
  "docker_yaml_line (k, JStr s) = k @ '': '' @ s"
  by (simp add: docker_yaml_line_def)

text \<open>
  Claim C7. The two copies of \<^verbatim>\<open>createSlidesFile\<close> merge alike, but the copy in
  docker-manager.ts writes a string value without quotes: for a title with a colon it
  writes the line \<^verbatim>\<open>title: Q3: results\<close>, where project-generator.ts writes the title
  between double quotes.
\<close>

theorem docker_slides_unquoted:
  "docker_frontmatterYaml colon_request =
     ''theme: default\<newline>title: Q3: results\<newline>class: text-center\<newline>transition: slide-left\<newline>mdc: true'' \<and>
   frontmatterYaml colon_request =
     ''theme: \"default\"\<newline>title: \"Q3: results\"\<newline>class: \"text-center\"\<newline>transition: \"slide-left\"\<newline>mdc: true''"
  by (simp add: docker_frontmatterYaml_def frontmatterYaml_def merged_frontmatter_def spread_def
      frontmatter_defaults_def colon_request_def or_default_def docker_yaml_line_def yaml_line_def)

section \<open>Failures of a creation\<close>

text \<open>
  When no step of the scaffold throws, the project directory exists afterwards; when
  \<^verbatim>\<open>allocatePort\<close> throws next, \<^verbatim>\<open>createPresentation\<close> rethrows with the directory in place:
  the call stands outside the inner \<^verbatim>\<open>try\<close>, and the outer \<^verbatim>\<open>catch\<close> only logs.
\<close>

lemma apply_step_keeps:
  "files path \<noteq> None \<Longrightarrow> apply_step step req path files path \<noteq> None"
  by (cases step) (auto simp: apply_step_def write_in_def split: option.splits)

lemma run_steps_keeps:
  "\<forall>s. throws s = None \<Longrightarrow> files path \<noteq> None \<Longrightarrow>
     fst (run_steps throws req path steps files) = None \<and>
     snd (run_steps throws req path steps files) path \<noteq> None"
proof (induction steps arbitrary: files)
  case Nil
  then show ?case by simp
next
  case (Cons step steps)
  from Cons.prems(2) have "apply_step step req path files path \<noteq> None" by (rule apply_step_keeps)
  with Cons.IH [of "apply_step step req path files"] Cons.prems(1) show ?case by simp
qed

lemma port_failure_keeps_directory:
  assumes "int (length (instances w)) < maxConcurrentPresentations cfg"
    and "\<forall>s. fsThrows env s = None"
    and "allocatePort (gotPort env) (portManager w) = Inl e"
  shows "fst (createPresentation cfg env req w) = Inl NoAvailablePorts \<and>
         fs (snd (createPresentation cfg env req w)) (join (tempDir cfg) (generateProjectId env)) \<noteq> None"
proof -
  let ?path = "join (tempDir cfg) (generateProjectId env)"
  let ?rest = "[WriteSlides, EnsureComponents, EnsurePublic] @
     (if truthy (customCSS req) then [WriteCustomCSS] else []) @
     [WriteViteConfig] @ (if templateValid env then [CopyNodeModules] else [])"
  let ?f1 = "apply_step EnsureProjectDir req ?path (fs w)"
  have s: "scaffold_steps env req = EnsureTempDir # EnsureProjectDir # ?rest"
    by (simp add: scaffold_steps_def)
  have "?f1 ?path \<noteq> None" by (simp add: apply_step_def split: option.splits)
  with run_steps_keeps [of "fsThrows env" ?f1 ?path req ?rest] assms(2)
  have r: "fst (run_steps (fsThrows env) req ?path ?rest ?f1) = None"
    "snd (run_steps (fsThrows env) req ?path ?rest ?f1) ?path \<noteq> None" by simp_all
  have "run_steps (fsThrows env) req ?path (scaffold_steps env req) (fs w) =
      run_steps (fsThrows env) req ?path ?rest ?f1"
    unfolding s using assms(2) by (simp add: apply_step_def)
  with r have "run_steps (fsThrows env) req ?path (scaffold_steps env req) (fs w) =
      (None, snd (run_steps (fsThrows env) req ?path ?rest ?f1))"
    by (simp add: prod_eq_iff)
  with r(2) obtain files where f: "run_steps (fsThrows env) req ?path (scaffold_steps env req) (fs w) =
      (None, files)" "files ?path \<noteq> None"
    by blast
  then have c: "createProjectWithoutDeps cfg env req w = (Inr (generateProjectId env, ?path), w\<lparr>fs := files\<rparr>)"
    by (simp add: createProjectWithoutDeps_def Let_def)
  from assms(3) have "e = NoAvailablePorts" by (rule allocatePort_Inl)
  with assms(1,3) c f(2) show ?thesis by (simp add: createPresentation_def)
qed

text \<open>
  Claim C1. On the fresh service, a creation whose \<^verbatim>\<open>getPort\<close> throws ends with the error
  of \<^verbatim>\<open>allocatePort\<close> and leaves the project directory it made on disk. A creation whose
  process start times out does roll back: the directory is gone and no port is
  allocated.
\<close>

theorem createPresentation_port_failure_keeps_directory:
  "fs initial_world ''/tmp/slidev-api/slidev-V1StGXR8_Z5j'' = None \<and>
   fst (createPresentation createDefaultConfig (calm_env\<lparr>gotPort := None\<rparr>) demo_request
      initial_world) = Inl NoAvailablePorts \<and>
   fs (snd (createPresentation createDefaultConfig (calm_env\<lparr>gotPort := None\<rparr>) demo_request
      initial_world)) ''/tmp/slidev-api/slidev-V1StGXR8_Z5j'' =
     Some \<lparr>slides_md = Some (slidesContent demo_request), custom_css = None\<rparr> \<and>
   fst (createPresentation createDefaultConfig (calm_env\<lparr>spawned := SpawnTimeout\<rparr>) demo_request
      initial_world) = Inl StartupTimeout \<and>
   fs (snd (createPresentation createDefaultConfig (calm_env\<lparr>spawned := SpawnTimeout\<rparr>) demo_request
      initial_world)) ''/tmp/slidev-api/slidev-V1StGXR8_Z5j'' = None \<and>
   allocatedPorts (portManager (snd (createPresentation createDefaultConfig
      (calm_env\<lparr>spawned := SpawnTimeout\<rparr>) demo_request initial_world))) = {}"
proof -
  have 1: "fs initial_world ''/tmp/slidev-api/slidev-V1StGXR8_Z5j'' = None"
    by (simp add: initial_world_def)
  have p: "createPresentation createDefaultConfig (calm_env\<lparr>gotPort := None\<rparr>) demo_request
      initial_world =
      (Inl NoAvailablePorts,
       initial_world\<lparr>fs := [''/tmp/slidev-api/slidev-V1StGXR8_Z5j'' \<mapsto>
          \<lparr>slides_md = Some (slidesContent demo_request), custom_css = None\<rparr>]\<rparr>)"
    by (simp add: createPresentation_def createDefaultConfig_def initial_world_def Let_def
      createProjectWithoutDeps_def generateProjectId_def join_def calm_env_def
      scaffold_steps_def truthy_def demo_request_def apply_step_def write_in_def
      empty_dir_def allocatePort_def allocatePort_try_def)
  have t: "createPresentation createDefaultConfig (calm_env\<lparr>spawned := SpawnTimeout\<rparr>) demo_request
      initial_world =
      (Inl StartupTimeout,
       initial_world\<lparr>processes := [\<lparr>exited = False, killed = True, signals = [SIGKILL]\<rparr>]\<rparr>)"
    by (simp add: createPresentation_def createDefaultConfig_def initial_world_def Let_def
      createProjectWithoutDeps_def generateProjectId_def join_def calm_env_def
      scaffold_steps_def truthy_def demo_request_def apply_step_def write_in_def
      empty_dir_def allocatePort_def allocatePort_try_def startSlidevProcess_def
      start_failed_def cleanupProject_def fs_remove_def releasePort_def kill_def
      fresh_process_def)
  show ?thesis unfolding p t using 1 by (simp add: initial_world_def)
qed

section \<open>The keys of the map\<close>

text \<open>Every operation keeps the keys of the map pairwise different.\<close>

lemma exec_op_distinct_keys:
  assumes "distinct (map fst (instances w))"
  shows "distinct (map fst (instances (exec_op cfg op w)))"
proof (cases op)
  case (Create env req)
  from createPresentation_registers [of cfg env req w] assms
  have "distinct (map fst (instances (snd (createPresentation cfg env req w))))"
    by (auto simp: distinct_update)
  with Create show ?thesis by (simp add: exec_op_def)
next
  case (Delete throws i)
  with deletePresentation_distinct [OF assms, of throws i] show ?thesis by (simp add: exec_op_def)
next
  case (Cleanup now throws)
  with delete_each_distinct [OF assms, of throws "expiredIds now w" 0] show ?thesis
    by (simp add: exec_op_def cleanupExpired_def)
next
  case (Extend now i t)
  have "distinct (map fst (instances (snd (extendPresentation now i t w))))"
    using assms
    by (auto simp: extendPresentation_def distinct_update split: option.splits)
  with Extend show ?thesis by (simp add: exec_op_def)
next
  case (Shutdown throws)
  with delete_each_distinct [OF assms, of throws "map fst (instances w)" 0] show ?thesis
    by (simp add: exec_op_def shutdown_def Let_def)
qed

lemma exec_distinct_keys:
  "distinct (map fst (instances w)) \<Longrightarrow> distinct (map fst (instances (exec cfg ops w)))"
proof (induction ops arbitrary: w)
  case Nil
  then show ?case by (simp add: exec_def)
next
  case (Cons op ops)
  from exec_op_distinct_keys [OF Cons.prems, of cfg op]
  have "distinct (map fst (instances (exec cfg ops (exec_op cfg op w))))" by (rule Cons.IH)
  then show ?case by (simp add: exec_def)
qed

section \<open>The ids of the map\<close>

text \<open>
  In a run from an empty map in which nanoid keeps its contract, every registered id
  passes \<^verbatim>\<open>presentationIdSchema\<close>, so the parameter check of the routes never rejects the
  id of a registered instance.
\<close>

lemma exec_op_ids_valid:
  assumes "nanoid_ok op" and "\<forall>kv \<in> set (instances w). presentationIdSchema (fst kv)"
  shows "\<forall>kv \<in> set (instances (exec_op cfg op w)). presentationIdSchema (fst kv)"
proof (cases op)
  case (Create env req)
  with assms(1) have v: "presentationIdSchema (generateProjectId env)"
    by (simp add: nanoid_ok_def generateProjectId_valid)
  from createPresentation_registers [of cfg env req w]
  have "\<forall>kv \<in> set (instances (snd (createPresentation cfg env req w))). presentationIdSchema (fst kv)"
  proof
    assume "\<exists>e. fst (createPresentation cfg env req w) = Inl e \<and>
        instances (snd (createPresentation cfg env req w)) = instances w"
    with assms(2) show ?thesis by auto
  next
    assume "\<exists>r inst. fst (createPresentation cfg env req w) = Inr r \<and> status inst = Ready \<and>
        inst_id inst = generateProjectId env \<and>
        spawned env = SpawnReady \<and> wait_loop (fetchOk env) 0 60 \<and>
        instances (snd (createPresentation cfg env req w)) =
          AList.update (generateProjectId env) inst (instances w)"
    then obtain inst where "instances (snd (createPresentation cfg env req w)) =
          AList.update (generateProjectId env) inst (instances w)" by blast
    with set_update_subset [of "generateProjectId env" inst "instances w"] v assms(2)
    show ?thesis by auto
  qed
  with Create show ?thesis by (simp add: exec_op_def)
next
  case (Delete throws i)
  with assms(2) deletePresentation_subset [of throws i w] show ?thesis
    by (auto simp: exec_op_def)
next
  case (Cleanup now throws)
  with assms(2) delete_each_subset [of throws "expiredIds now w" 0 w] show ?thesis
    by (auto simp: exec_op_def cleanupExpired_def)
next
  case (Extend now i t)
  show ?thesis
  proof (cases "instances (snd (extendPresentation now i t w)) = instances w")
    case True
    with assms(2) Extend show ?thesis by (simp add: exec_op_def)
  next
    case False
    then obtain inst n where v: "presentationIdSchema i"
      and u: "instances (snd (extendPresentation now i t w)) =
        AList.update i (inst\<lparr>expiresAt := now + n\<rparr>) (instances w)"
      by (auto simp: extendPresentation_def getPresentation_def split: if_splits option.splits)
    with set_update_subset [of i "inst\<lparr>expiresAt := now + n\<rparr>" "instances w"] assms(2)
    have "\<forall>kv \<in> set (instances (snd (extendPresentation now i t w))). presentationIdSchema (fst kv)"
      by auto
    with Extend show ?thesis by (simp add: exec_op_def)
  qed
next
  case (Shutdown throws)
  with assms(2) delete_each_subset [of throws "map fst (instances w)" 0 w] show ?thesis
    by (auto simp: exec_op_def shutdown_def Let_def)
qed

lemma exec_ids_valid:
  "list_all nanoid_ok ops \<Longrightarrow> \<forall>kv \<in> set (instances w). presentationIdSchema (fst kv) \<Longrightarrow>
     \<forall>kv \<in> set (instances (exec cfg ops w)). presentationIdSchema (fst kv)"
proof (induction ops arbitrary: w)
  case Nil
  then show ?case by (simp add: exec_def)
next
  case (Cons op ops)
  from Cons.prems(1) have o: "nanoid_ok op" and r: "list_all nanoid_ok ops" by simp_all
  from exec_op_ids_valid [OF o Cons.prems(2), of cfg]
  have "\<forall>kv \<in> set (instances (exec cfg ops (exec_op cfg op w))). presentationIdSchema (fst kv)"
    by (rule Cons.IH [OF r])
  then show ?case by (simp add: exec_def)
qed

lemma registered_id_valid:
  assumes "list_all nanoid_ok ops" and "instances w0 = []"
    and "getPresentation i (exec cfg ops w0) = Some inst"
  shows "presentationIdSchema i"
proof -
  from assms(2) have "\<forall>kv \<in> set (instances w0). presentationIdSchema (fst kv)" by simp
  from exec_ids_valid [OF assms(1) this, of cfg]
  have a: "\<forall>kv \<in> set (instances (exec cfg ops w0)). presentationIdSchema (fst kv)" .
  from assms(3) have "(i, inst) \<in> set (instances (exec cfg ops w0))"
    by (auto simp: getPresentation_def dest: map_of_SomeD)
  with a show ?thesis by auto
qed

end
